theory Spec2Isabelle
  imports Main
begin

chapter \<open>The model\<close>

section \<open>Data model\<close>

text \<open>
  The posts service of the blog (\<^verbatim>\<open>src/features/posts/posts.service.ts\<close>) sequences
  calls to a post repository, a key/value cache, a search index, a CDN and a workflow
  engine.  A post row is a record; the rich document \<^verbatim>\<open>contentJson\<close> is kept opaque.
  A string is the list of its UTF-8 bytes.  Timestamps (\<^verbatim>\<open>Date\<close>) are milliseconds
  since the epoch.  The field \<^verbatim>\<open>id\<close> is
  called \<open>post_id\<close> here, since \<open>id\<close> is the identity function of HOL.
\<close>

type_synonym json = string

record tag =
  tag_id :: nat
  tag_name :: string

record post =
  post_id :: nat
  title :: string
  slug :: string
  status :: string
  contentJson :: "json option"
  summary :: "string option"
  publishedAt :: "int option"
  readTimeInMinutes :: nat
  tags :: "tag list"

section \<open>Decimal numerals in strings\<close>

text \<open>
  Cache keys and slugs embed numbers in decimal, as JavaScript's template strings do
  for an integer: no sign, no leading zero.
\<close>

definition digit_chars :: string where
  "digit_chars = ''0123456789''"

definition is_digit :: "char \<Rightarrow> bool" where
  "is_digit c = (c \<in> set digit_chars)"

definition digit_val :: "char \<Rightarrow> nat" where
  "digit_val c = length (takeWhile (\<lambda>d. d \<noteq> c) digit_chars)"

fun string_of_nat :: "nat \<Rightarrow> string" where
  "string_of_nat n =
     (if n < 10 then [digit_chars ! n]
      else string_of_nat (n div 10) @ [digit_chars ! (n mod 10)])"

declare string_of_nat.simps [simp del]

definition nat_of_digits :: "string \<Rightarrow> nat" where
  "nat_of_digits ds = foldl (\<lambda>a c. 10 * a + digit_val c) 0 ds"

section \<open>Request context, cache service and repository\<close>

text \<open>
  The request context carries the database handle, the key/value cache, the version
  counters of the cache service and the execution context, whose \<^verbatim>\<open>waitUntil\<close>
  registers deferred work.  A deferred task is recorded as data: the call that was
  fired and its arguments.  One entry of \<open>waitUntil\<close> is one call of
  \<^verbatim>\<open>executionCtx.waitUntil\<close>; a \<^verbatim>\<open>Promise.all\<close> batch is an entry with several
  tasks.
\<close>

datatype task =
    DeleteKey string
  | BumpVersion string
  | SearchDeleteIndex nat
  | PurgePostCDNCache string
  | SyncPostMedia nat "json option"

record ctx =
  db :: "post list"
  KV :: "string \<rightharpoonup> string"
  versions :: "string \<rightharpoonup> nat"
  waitUntil :: "task list list"

text \<open>
  Modelled from the spec: \<^verbatim>\<open>POSTS_CACHE_KEYS\<close> (posts.schema.ts is not among the
  sources).  Section 6 of the specification gives the key formats
  \<^verbatim>\<open>posts:list:<version>:<limit>:<cursor>:<tag>\<close>, \<^verbatim>\<open>posts:detail:<version>:<slug>\<close>,
  \<^verbatim>\<open>posts:related:<slug>:<limit>\<close> and \<^verbatim>\<open>posts:sync-hash:<id>\<close>.
\<close>

definition POSTS_CACHE_KEYS_list :: "nat \<Rightarrow> nat \<Rightarrow> nat \<Rightarrow> string \<Rightarrow> string" where
  "POSTS_CACHE_KEYS_list version limit cursor tagName =
     ''posts:list:'' @ string_of_nat version @ '':'' @ string_of_nat limit @ '':''
       @ string_of_nat cursor @ '':'' @ tagName"

definition POSTS_CACHE_KEYS_detail :: "nat \<Rightarrow> string \<Rightarrow> string" where
  "POSTS_CACHE_KEYS_detail version s = ''posts:detail:'' @ string_of_nat version @ '':'' @ s"

definition POSTS_CACHE_KEYS_related :: "string \<Rightarrow> nat \<Rightarrow> string" where
  "POSTS_CACHE_KEYS_related s limit = ''posts:related:'' @ s @ '':'' @ string_of_nat limit"

definition POSTS_CACHE_KEYS_syncHash :: "nat \<Rightarrow> string" where
  "POSTS_CACHE_KEYS_syncHash i = ''posts:sync-hash:'' @ string_of_nat i"

text \<open>
  Modelled from the spec: the cache service (cache.service.ts is not among the
  sources).  Section 4.1: \<^verbatim>\<open>getVersion(namespace)\<close> returns the current integer version
  of a namespace, creating it at 1 if absent; \<^verbatim>\<open>bumpVersion(namespace)\<close> increments it.
  Section 6: \<^verbatim>\<open>getRaw(ctx, key) -> string|null\<close>, \<^verbatim>\<open>deleteKey(ctx, key)\<close>.
\<close>

definition CacheService_getVersion :: "ctx \<Rightarrow> string \<Rightarrow> nat \<times> ctx" where
  "CacheService_getVersion c ns =
     (case versions c ns of
        None \<Rightarrow> (1, c\<lparr>versions := (versions c)(ns \<mapsto> 1)\<rparr>)
      | Some v \<Rightarrow> (v, c))"

definition CacheService_bumpVersion :: "ctx \<Rightarrow> string \<Rightarrow> ctx" where
  "CacheService_bumpVersion c ns =
     (let (v, c1) = CacheService_getVersion c ns
      in c1\<lparr>versions := (versions c1)(ns \<mapsto> v + 1)\<rparr>)"

definition CacheService_getRaw :: "ctx \<Rightarrow> string \<Rightarrow> string option" where
  "CacheService_getRaw c k = KV c k"

definition CacheService_deleteKey :: "ctx \<Rightarrow> string \<Rightarrow> ctx" where
  "CacheService_deleteKey c k = c\<lparr>KV := (KV c)(k := None)\<rparr>"

text \<open>
  Modelled from the spec: the post repository (posts.data.ts is not among the
  sources).  Section 6 lists \<^verbatim>\<open>findPostById\<close>, \<^verbatim>\<open>deletePost\<close> and \<^verbatim>\<open>updatePost\<close>; the
  table is a list of rows and \<^verbatim>\<open>id\<close> is its key.  \<^verbatim>\<open>updatePost\<close> applies a partial
  update: a field the patch leaves undefined (\<open>None\<close>) keeps its value, and the
  updated row is returned, or nothing when no row has the id.
\<close>

definition PostRepo_findPostById :: "post list \<Rightarrow> nat \<Rightarrow> post option" where
  "PostRepo_findPostById rows i = find (\<lambda>p. post_id p = i) rows"

definition PostRepo_deletePost :: "post list \<Rightarrow> nat \<Rightarrow> post list" where
  "PostRepo_deletePost rows i = filter (\<lambda>p. post_id p \<noteq> i) rows"

record post_patch =
  patch_title :: "string option"
  patch_slug :: "string option"
  patch_status :: "string option"
  patch_contentJson :: "json option option"
  patch_summary :: "string option option"
  patch_publishedAt :: "int option option"
  patch_readTimeInMinutes :: "nat option"

definition apply_patch :: "post_patch \<Rightarrow> post \<Rightarrow> post" where
  "apply_patch d p =
     p\<lparr>title := (case patch_title d of None \<Rightarrow> title p | Some v \<Rightarrow> v),
       slug := (case patch_slug d of None \<Rightarrow> slug p | Some v \<Rightarrow> v),
       status := (case patch_status d of None \<Rightarrow> status p | Some v \<Rightarrow> v),
       contentJson := (case patch_contentJson d of None \<Rightarrow> contentJson p | Some v \<Rightarrow> v),
       summary := (case patch_summary d of None \<Rightarrow> summary p | Some v \<Rightarrow> v),
       publishedAt := (case patch_publishedAt d of None \<Rightarrow> publishedAt p | Some v \<Rightarrow> v),
       readTimeInMinutes :=
         (case patch_readTimeInMinutes d of None \<Rightarrow> readTimeInMinutes p | Some v \<Rightarrow> v)\<rparr>"

definition PostRepo_updatePost :: "post list \<Rightarrow> nat \<Rightarrow> post_patch \<Rightarrow> post list \<times> post option" where
  "PostRepo_updatePost rows i d =
     (case find (\<lambda>p. post_id p = i) rows of
        None \<Rightarrow> (rows, None)
      | Some p \<Rightarrow>
          (map (\<lambda>q. if post_id q = i then apply_patch d q else q) rows, Some (apply_patch d p)))"

definition empty_patch :: post_patch where
  "empty_patch =
     \<lparr>patch_title = None, patch_slug = None, patch_status = None, patch_contentJson = None,
      patch_summary = None, patch_publishedAt = None, patch_readTimeInMinutes = None\<rparr>"

section \<open>Admin synchronisation state\<close>

text \<open>
  \<^verbatim>\<open>findPostById\<close> (posts.service.ts, lines 284-317).  \<^verbatim>\<open>calculatePostHash\<close>
  (utils/sync.ts) is not among the sources and is a parameter: any function from the
  seven hashed fields to a string.  The result is the post row extended with
  \<open>isSynced\<close> and \<open>hasPublicCache\<close>.  \<^verbatim>\<open>dbHash === kvHash\<close> compares a string with a
  string or \<^verbatim>\<open>null\<close>.
\<close>

record post_hash_input =
  hash_title :: string
  hash_contentJson :: "json option"
  hash_summary :: "string option"
  hash_tagIds :: "nat list"
  hash_slug :: string
  hash_publishedAt :: "int option"
  hash_readTimeInMinutes :: nat

record admin_post = post +
  isSynced :: bool
  hasPublicCache :: bool

definition findPostById :: "(post_hash_input \<Rightarrow> string) \<Rightarrow> ctx \<Rightarrow> nat \<Rightarrow> admin_post option" where
  "findPostById calculatePostHash c i =
     (case PostRepo_findPostById (db c) i of
        None \<Rightarrow> None
      | Some p \<Rightarrow>
          let kvHash = CacheService_getRaw c (POSTS_CACHE_KEYS_syncHash (post_id p));
              hasPublicCache' = (kvHash \<noteq> None);
              isSynced' =
                (if status p = ''draft'' then \<not> hasPublicCache'
                 else
                   let dbHash = calculatePostHash
                         \<lparr>hash_title = title p,
                          hash_contentJson = contentJson p,
                          hash_summary = summary p,
                          hash_tagIds = map tag_id (tags p),
                          hash_slug = slug p,
                          hash_publishedAt = publishedAt p,
                          hash_readTimeInMinutes = readTimeInMinutes p\<rparr>
                   in Some dbHash = kvHash)
          in Some (post.extend p (admin_post.fields isSynced' hasPublicCache')))"

section \<open>Mutations\<close>

text \<open>
  \<^verbatim>\<open>updatePost\<close> (posts.service.ts, lines 323-340).  The input is the post id and a
  patch.  \<^verbatim>\<open>throw new Error("Post not found")\<close> is the error value; nothing was
  changed when it is raised.  \<^verbatim>\<open>data.data.contentJson !== undefined\<close> is
  \<open>patch_contentJson \<noteq> None\<close>: a patch may carry \<^verbatim>\<open>null\<close> (\<open>Some None\<close>) or a document.
  The media synchronisation is registered with \<^verbatim>\<open>waitUntil\<close> and not awaited:
  the returned detail is read from a context in which it has not run.
\<close>

datatype error = Post_not_found

record UpdatePostInput =
  upd_id :: nat
  upd_data :: post_patch

definition updatePost ::
  "(post_hash_input \<Rightarrow> string) \<Rightarrow> ctx \<Rightarrow> UpdatePostInput \<Rightarrow> error + (admin_post option \<times> ctx)" where
  "updatePost calculatePostHash c d =
     (case PostRepo_updatePost (db c) (upd_id d) (upd_data d) of
        (rows, None) \<Rightarrow> Inl Post_not_found
      | (rows, Some updatedPost) \<Rightarrow>
          let c1 = c\<lparr>db := rows\<rparr>;
              c2 = (case patch_contentJson (upd_data d) of
                      None \<Rightarrow> c1
                    | Some content \<Rightarrow>
                        c1\<lparr>waitUntil :=
                          waitUntil c1 @ [[SyncPostMedia (post_id updatedPost) content]]\<rparr>)
          in Inr (findPostById calculatePostHash c2 (post_id updatedPost), c2))"

text \<open>
  \<^verbatim>\<open>deletePost\<close> (posts.service.ts, lines 346-379).  A missing post is an early
  return.  For a published post the five tasks are pushed in source order and handed
  to \<^verbatim>\<open>waitUntil\<close> as one \<^verbatim>\<open>Promise.all\<close> batch; the detail key embeds the version read
  by \<^verbatim>\<open>getVersion(context, "posts:detail")\<close>.
\<close>

definition deletePost :: "ctx \<Rightarrow> nat \<Rightarrow> ctx" where
  "deletePost c i =
     (case PostRepo_findPostById (db c) i of
        None \<Rightarrow> c
      | Some p \<Rightarrow>
          let c1 = c\<lparr>db := PostRepo_deletePost (db c) i\<rparr>
          in if status p = ''published'' then
               let (version, c2) = CacheService_getVersion c1 ''posts:detail'';
                   tasks =
                     [DeleteKey (POSTS_CACHE_KEYS_detail version (slug p)),
                      BumpVersion ''posts:list'',
                      SearchDeleteIndex i,
                      PurgePostCDNCache (slug p),
                      DeleteKey (POSTS_CACHE_KEYS_syncHash i)]
               in c2\<lparr>waitUntil := waitUntil c2 @ [tasks]\<rparr>
             else
               c1\<lparr>waitUntil := waitUntil c1 @ [[DeleteKey (POSTS_CACHE_KEYS_syncHash i)]]\<rparr>)"

section \<open>Cache-aside fetch and the public listing\<close>

text \<open>
  Modelled from the spec: \<^verbatim>\<open>CacheService.get\<close> (cache.service.ts is not among the
  sources).  Section 4.2: look up the key; on a hit, validate against the schema and
  return; on a miss, invoke the fetcher, store its result and return it; a stored
  payload that fails validation is treated as a miss.  The cache stores strings:
  \<open>decode\<close> stands for parsing and schema validation, \<open>encode\<close> for serialisation.
  Expiry is not modelled: \<open>KV\<close> holds the live entries.
\<close>

definition CacheService_get ::
  "ctx \<Rightarrow> string \<Rightarrow> (string \<Rightarrow> 'a option) \<Rightarrow> ('a \<Rightarrow> string) \<Rightarrow> (unit \<Rightarrow> 'a) \<Rightarrow> 'a \<times> ctx" where
  "CacheService_get c k decode encode fetcher =
     (case (case KV c k of None \<Rightarrow> None | Some raw \<Rightarrow> decode raw) of
        Some v \<Rightarrow> (v, c)
      | None \<Rightarrow> (let v = fetcher () in (v, c\<lparr>KV := (KV c)(k \<mapsto> encode v)\<rparr>)))"

text \<open>
  Modelled from the spec: \<^verbatim>\<open>getCurrentMinuteEnd\<close> (lib/utils.ts is not among the
  sources).  Section 4.3: "now" is rounded to the end of the current minute.  The
  argument is the clock reading in milliseconds; the result is the last millisecond
  of the minute that contains it.
\<close>

definition getCurrentMinuteEnd :: "int \<Rightarrow> int" where
  "getCurrentMinuteEnd now = now - now mod 60000 + 59999"

text \<open>
  \<^verbatim>\<open>buildPostWhereClause\<close> (data/helper.ts, lines 10-37).  The query builder's
  conditions are a datatype; \<open>And\<close> is \<^verbatim>\<open>and(...whereClauses)\<close>.  An option is truthy
  when it is present and not the empty string (not \<^verbatim>\<open>false\<close> for the flag).
  \<^verbatim>\<open>trim\<close> removes the white space and line terminators of the language at both
  ends: the 25 code points U+0009 to U+000D, U+0020, U+00A0, U+1680, U+2000 to U+200A,
  U+2028, U+2029, U+202F, U+205F, U+3000 and U+FEFF, each as its UTF-8 bytes.
\<close>

datatype sql_cond =
    Eq_status string
  | Lte_publishedAt int
  | Like_title string
  | And "sql_cond list"

record where_options =
  opt_status :: "string option"
  opt_publicOnly :: "bool option"
  opt_search :: "string option"

definition white_space :: "string list" where
  "white_space =
     [[CHR 0x09], [CHR 0x0A], [CHR 0x0B], [CHR 0x0C], [CHR 0x0D], [CHR 0x20],
      [CHR 0xC2, CHR 0xA0],
      [CHR 0xE1, CHR 0x9A, CHR 0x80],
      [CHR 0xE2, CHR 0x80, CHR 0x80], [CHR 0xE2, CHR 0x80, CHR 0x81],
      [CHR 0xE2, CHR 0x80, CHR 0x82], [CHR 0xE2, CHR 0x80, CHR 0x83],
      [CHR 0xE2, CHR 0x80, CHR 0x84], [CHR 0xE2, CHR 0x80, CHR 0x85],
      [CHR 0xE2, CHR 0x80, CHR 0x86], [CHR 0xE2, CHR 0x80, CHR 0x87],
      [CHR 0xE2, CHR 0x80, CHR 0x88], [CHR 0xE2, CHR 0x80, CHR 0x89],
      [CHR 0xE2, CHR 0x80, CHR 0x8A],
      [CHR 0xE2, CHR 0x80, CHR 0xA8], [CHR 0xE2, CHR 0x80, CHR 0xA9],
      [CHR 0xE2, CHR 0x80, CHR 0xAF],
      [CHR 0xE2, CHR 0x81, CHR 0x9F],
      [CHR 0xE3, CHR 0x80, CHR 0x80],
      [CHR 0xEF, CHR 0xBB, CHR 0xBF]]"

fun strip_start :: "string list \<Rightarrow> string \<Rightarrow> string" where
  "strip_start ws [] = []"
| "strip_start ws (ch # s) =
     (case find (\<lambda>w. w \<noteq> [] \<and> take (length w) (ch # s) = w) ws of
        None \<Rightarrow> ch # s
      | Some w \<Rightarrow> strip_start ws (drop (length w - 1) s))"

definition trim :: "string \<Rightarrow> string" where
  "trim s = rev (strip_start (map rev white_space) (rev (strip_start white_space s)))"

definition buildPostWhereClause :: "int \<Rightarrow> where_options \<Rightarrow> sql_cond option" where
  "buildPostWhereClause now options =
     (let whereClauses = [];
          whereClauses =
            (case opt_status options of
               None \<Rightarrow> whereClauses
             | Some st \<Rightarrow> if st \<noteq> [] then whereClauses @ [Eq_status st] else whereClauses);
          whereClauses =
            (if opt_publicOnly options = Some True
             then whereClauses @ [Eq_status ''published'', Lte_publishedAt (getCurrentMinuteEnd now)]
             else whereClauses);
          whereClauses =
            (case opt_search options of
               None \<Rightarrow> whereClauses
             | Some se \<Rightarrow>
                 if se \<noteq> [] then
                   (let searchTerm = trim se
                    in if searchTerm \<noteq> []
                       then whereClauses @ [Like_title (''%'' @ searchTerm @ ''%'')]
                       else whereClauses)
                 else whereClauses)
      in if length whereClauses > 0 then Some (And whereClauses) else None)"

text \<open>
  The meaning of a condition on a row, as SQL evaluates it: a comparison with a null
  \<^verbatim>\<open>publishedAt\<close> is not true.  \<open>like\<close> is the database's \<^verbatim>\<open>LIKE\<close> operator (pattern,
  then value), a parameter.
\<close>

fun holds :: "(string \<Rightarrow> string \<Rightarrow> bool) \<Rightarrow> sql_cond \<Rightarrow> post \<Rightarrow> bool" where
  "holds like (Eq_status st) p = (status p = st)"
| "holds like (Lte_publishedAt t) p = (case publishedAt p of None \<Rightarrow> False | Some d \<Rightarrow> d \<le> t)"
| "holds like (Like_title pat) p = like pat (title p)"
| "holds like (And cs) p = list_all (\<lambda>cnd. holds like cnd p) cs"

definition holds_where :: "(string \<Rightarrow> string \<Rightarrow> bool) \<Rightarrow> sql_cond option \<Rightarrow> post \<Rightarrow> bool" where
  "holds_where like w p = (case w of None \<Rightarrow> True | Some cnd \<Rightarrow> holds like cnd p)"

text \<open>
  Modelled from the spec: \<^verbatim>\<open>PostRepo.getPostsCursor\<close> and \<^verbatim>\<open>PostRepo.findPostBySlug\<close>
  (posts.data.ts is not among the sources).  Section 4.3: the listing takes an optional
  numeric cursor, a limit and a tag filter and queries the rows that satisfy the where
  clause of \<open>buildPostWhereClause\<close>; section 6: both are parameterised by
  \<open>publicOnly\<close>.  How the cursor orders and cuts the matching rows is not described:
  \<open>paginate\<close>, from cursor, limit and the matching rows to a page, is a parameter.
\<close>

record list_response =
  items :: "post list"
  nextCursor :: "nat option"

record cursor_options =
  c_cursor :: "nat option"
  c_limit :: "nat option"
  c_publicOnly :: "bool option"
  c_tagName :: "string option"

definition has_tag :: "string option \<Rightarrow> post \<Rightarrow> bool" where
  "has_tag tg p = (case tg of None \<Rightarrow> True | Some nm \<Rightarrow> nm \<in> tag_name ` set (tags p))"

definition PostRepo_getPostsCursor ::
  "(string \<Rightarrow> string \<Rightarrow> bool) \<Rightarrow> (nat option \<Rightarrow> nat option \<Rightarrow> post list \<Rightarrow> list_response)
     \<Rightarrow> int \<Rightarrow> post list \<Rightarrow> cursor_options \<Rightarrow> list_response" where
  "PostRepo_getPostsCursor like paginate now rows options =
     (let w = buildPostWhereClause now
                \<lparr>opt_status = None, opt_publicOnly = c_publicOnly options, opt_search = None\<rparr>
      in paginate (c_cursor options) (c_limit options)
           (filter (\<lambda>p. holds_where like w p \<and> has_tag (c_tagName options) p) rows))"


text \<open>
  \<^verbatim>\<open>getPostsCursor\<close> of the service (posts.service.ts, lines 36-67): the fetcher
  queries with \<^verbatim>\<open>publicOnly: true\<close>; the cache key is built from the current version of
  \<open>posts:list\<close>, \<^verbatim>\<open>data.limit ?? 10\<close>, \<^verbatim>\<open>data.cursor ?? 0\<close> and \<^verbatim>\<open>data.tagName ?? "all"\<close>.
\<close>

record GetPostsCursorInput =
  in_cursor :: "nat option"
  in_limit :: "nat option"
  in_tagName :: "string option"

definition getPostsCursor ::
  "(string \<Rightarrow> string \<Rightarrow> bool) \<Rightarrow> (nat option \<Rightarrow> nat option \<Rightarrow> post list \<Rightarrow> list_response)
     \<Rightarrow> (string \<Rightarrow> list_response option) \<Rightarrow> (list_response \<Rightarrow> string)
     \<Rightarrow> int \<Rightarrow> ctx \<Rightarrow> GetPostsCursorInput \<Rightarrow> list_response \<times> ctx" where
  "getPostsCursor like paginate decode encode now c d =
     (let fetcher = (\<lambda>u::unit. PostRepo_getPostsCursor like paginate now (db c)
                       \<lparr>c_cursor = in_cursor d, c_limit = in_limit d,
                        c_publicOnly = Some True, c_tagName = in_tagName d\<rparr>);
          (version, c1) = CacheService_getVersion c ''posts:list'';
          cacheKey = POSTS_CACHE_KEYS_list version
                       (case in_limit d of None \<Rightarrow> 10 | Some l \<Rightarrow> l)
                       (case in_cursor d of None \<Rightarrow> 0 | Some cu \<Rightarrow> cu)
                       (case in_tagName d of None \<Rightarrow> ''all'' | Some tg \<Rightarrow> tg)
      in CacheService_get c1 cacheKey decode encode fetcher)"

section \<open>Related posts\<close>

text \<open>
  \<^verbatim>\<open>getRelatedPosts\<close> (posts.service.ts, lines 110-147).  The related ids come
  from the cache-aside fetch under the key of slug and limit; the posts come from the
  repository's bulk lookup, whose result order is not known.  Both repository functions
  (posts.data.ts) are parameters: \<open>getRelatedPostIds\<close> from the table, a slug and a
  limit to ids, \<open>getPublicPostsByIds\<close> from the table and ids to posts.  The source
  restores the cached order with
  \<^verbatim>\<open>cachedIds.map((id) => posts.find((p) => p.id === id)).filter((p) => !!p)\<close>.
\<close>

record FindRelatedPostsInput =
  rel_slug :: string
  rel_limit :: nat

definition getRelatedPosts ::
  "(string \<Rightarrow> nat list option) \<Rightarrow> (nat list \<Rightarrow> string)
     \<Rightarrow> (post list \<Rightarrow> string \<Rightarrow> nat \<Rightarrow> nat list) \<Rightarrow> (post list \<Rightarrow> nat list \<Rightarrow> post list)
     \<Rightarrow> ctx \<Rightarrow> FindRelatedPostsInput \<Rightarrow> post list \<times> ctx" where
  "getRelatedPosts decode encode getRelatedPostIds getPublicPostsByIds c d =
     (let fetcher = (\<lambda>u::unit. getRelatedPostIds (db c) (rel_slug d) (rel_limit d));
          cacheKey = POSTS_CACHE_KEYS_related (rel_slug d) (rel_limit d);
          (cachedIds, c1) = CacheService_get c cacheKey decode encode fetcher
      in if length cachedIds = 0 then ([], c1)
         else
           let posts = getPublicPostsByIds (db c1) cachedIds;
               orderedPosts =
                 map the (filter (\<lambda>p. p \<noteq> None)
                   (map (\<lambda>i. find (\<lambda>p. post_id p = i) posts) cachedIds))
           in (orderedPosts, c1))"

section \<open>Post-process workflow\<close>

text \<open>
  \<^verbatim>\<open>isFuturePublishDate\<close> (utils/date.ts).  \<open>Date_parse\<close> stands for
  \<^verbatim>\<open>new Date(s).getTime()\<close>, with \<open>None\<close> for \<^verbatim>\<open>NaN\<close>; it is a parameter, as is
  \<open>toISOString\<close> below.  \<open>now\<close> is the reading of \<^verbatim>\<open>Date.now()\<close>.  The second
  argument of the source is unused.
\<close>

definition isFuturePublishDate :: "(string \<Rightarrow> int option) \<Rightarrow> int \<Rightarrow> string \<Rightarrow> string option \<Rightarrow> bool" where
  "isFuturePublishDate Date_parse now publishedAtISO clientToday =
     (case Date_parse publishedAtISO of
        None \<Rightarrow> False
      | Some publishDate \<Rightarrow> publishDate > now)"

text \<open>
  The workflow engine.  The calls made on \<^verbatim>\<open>env.POST_PROCESS_WORKFLOW\<close> and
  \<^verbatim>\<open>env.SCHEDULED_PUBLISH_WORKFLOW\<close>, and the repository update that stamps the
  publish time, are logged in \<open>calls\<close> in the order they are made.  \<open>scheduled\<close> is the
  engine's table of scheduled-publish instances by id.  As the source's comment on
  the \<^verbatim>\<open>catch\<close> says, the lookup fails when the instance does not exist and the
  termination fails when it has already finished; \<^verbatim>\<open>create\<close> is taken to succeed.
\<close>

datatype instance_status = Active | Completed | Terminated

datatype wf_error = Instance_not_found | Instance_not_active

record post_process_params =
  pp_postId :: nat
  pp_isPublished :: bool
  pp_publishedAt :: "string option"
  pp_isFuturePost :: bool

datatype wf_call =
    RepoUpdatePublishedAt nat int
  | PostProcessCreate post_process_params
  | ScheduledGet string
  | ScheduledTerminate string
  | ScheduledCreate string nat string

record wctx = ctx +
  scheduled :: "string \<rightharpoonup> instance_status"
  calls :: "wf_call list"

record StartPostProcessInput =
  sp_id :: nat
  sp_status :: string
  sp_clientToday :: "string option"

text \<open>
  The three clock readings of one invocation: \<^verbatim>\<open>new Date()\<close> inside
  \<^verbatim>\<open>getCurrentMinuteEnd\<close>, \<^verbatim>\<open>Date.now()\<close> inside \<^verbatim>\<open>isFuturePublishDate\<close>, and
  \<^verbatim>\<open>Date.now()\<close> before the scheduled instance is created.
\<close>

record clock =
  t_stamp :: int
  t_check :: int
  t_schedule :: int

text \<open>
  The body of the \<^verbatim>\<open>try\<close> block (lines 428-431): the context after the calls that
  were made, and the error thrown, if any.
\<close>

definition try_terminate :: "wctx \<Rightarrow> string \<Rightarrow> wf_error option \<times> wctx" where
  "try_terminate c scheduledId =
     (let c1 = c\<lparr>calls := calls c @ [ScheduledGet scheduledId]\<rparr>
      in case scheduled c1 scheduledId of
           None \<Rightarrow> (Some Instance_not_found, c1)
         | Some st \<Rightarrow>
             (let c2 = c1\<lparr>calls := calls c1 @ [ScheduledTerminate scheduledId]\<rparr>
              in if st = Active
                 then (None, c2\<lparr>scheduled := (scheduled c2)(scheduledId \<mapsto> Terminated)\<rparr>)
                 else (Some Instance_not_active, c2)))"

text \<open>
  \<^verbatim>\<open>startPostProcessWorkflow\<close> (posts.service.ts, lines 394-446).  A \<^verbatim>\<open>Date\<close> object
  is truthy, so \<^verbatim>\<open>!post.publishedAt\<close> is "publishedAt is null"; a string is truthy
  when it is not empty.  The \<^verbatim>\<open>catch\<close> drops the error of the \<^verbatim>\<open>try\<close> block and keeps
  the context.
\<close>

definition startPostProcessWorkflow ::
  "(int \<Rightarrow> string) \<Rightarrow> (string \<Rightarrow> int option) \<Rightarrow> clock \<Rightarrow> wctx \<Rightarrow> StartPostProcessInput \<Rightarrow> wctx" where
  "startPostProcessWorkflow toISOString Date_parse clk c d =
     (let (publishedAtISO, c1) =
            (if sp_status d = ''published'' then
               (case PostRepo_findPostById (db c) (sp_id d) of
                  None \<Rightarrow> (None, c)
                | Some p \<Rightarrow>
                    (case publishedAt p of
                       None \<Rightarrow>
                         (let now = getCurrentMinuteEnd (t_stamp clk)
                          in (Some (toISOString now),
                              c\<lparr>db := fst (PostRepo_updatePost (db c) (post_id p)
                                          (empty_patch\<lparr>patch_publishedAt := Some (Some now)\<rparr>)),
                                calls := calls c @ [RepoUpdatePublishedAt (post_id p) now]\<rparr>))
                     | Some t \<Rightarrow> (Some (toISOString t), c)))
             else (None, c));
          isFuture =
            (case publishedAtISO of
               None \<Rightarrow> False
             | Some isoStr \<Rightarrow>
                 isoStr \<noteq> [] \<and> isFuturePublishDate Date_parse (t_check clk) isoStr (sp_clientToday d));
          c2 = c1\<lparr>calls := calls c1 @
                 [PostProcessCreate
                    \<lparr>pp_postId = sp_id d,
                     pp_isPublished = (sp_status d = ''published''),
                     pp_publishedAt = publishedAtISO,
                     pp_isFuturePost = isFuture\<rparr>]\<rparr>;
          scheduledId = ''post-'' @ string_of_nat (sp_id d) @ ''-scheduled'';
          c3 = snd (try_terminate c2 scheduledId)
      in case publishedAtISO of
           None \<Rightarrow> c3
         | Some isoStr \<Rightarrow>
             if sp_status d = ''published'' \<and> isoStr \<noteq> [] then
               (case Date_parse isoStr of
                  None \<Rightarrow> c3
                | Some publishDate \<Rightarrow>
                    if publishDate > t_schedule clk then
                      c3\<lparr>scheduled := (scheduled c3)(scheduledId \<mapsto> Active),
                         calls := calls c3 @ [ScheduledCreate scheduledId (sp_id d) isoStr]\<rparr>
                    else c3)
             else c3)"

text \<open>
  The effective publish time of an invocation, in the words of the specification: for
  a request to publish an existing post, the post's publish time, or the end of the
  current minute when the post has none; otherwise there is none.
\<close>

definition effective_publishedAt :: "clock \<Rightarrow> post list \<Rightarrow> StartPostProcessInput \<Rightarrow> int option" where
  "effective_publishedAt clk rows d =
     (if sp_status d = ''published'' then
        (case PostRepo_findPostById rows (sp_id d) of
           None \<Rightarrow> None
         | Some p \<Rightarrow>
             (case publishedAt p of
                None \<Rightarrow> Some (getCurrentMinuteEnd (t_stamp clk))
              | Some t \<Rightarrow> Some t))
      else None)"

definition is_scheduled_call :: "wf_call \<Rightarrow> bool" where
  "is_scheduled_call x =
     (case x of ScheduledGet sid \<Rightarrow> True | ScheduledTerminate sid \<Rightarrow> True
      | ScheduledCreate sid i isoStr \<Rightarrow> True | _ \<Rightarrow> False)"

section \<open>Slug generation\<close>

text \<open>
  JavaScript numbers are IEEE 754 doubles.  \<^verbatim>\<open>generateSlug\<close> only meets
  non-negative integers and \<^verbatim>\<open>Infinity\<close>, so a number is modelled as the integer a
  double holds, or \<open>PosInfinity\<close>.  \<open>round_double\<close> is the number value of a
  non-negative integer: itself below \<open>2^53\<close>, and above that the nearest integer with
  a 53-bit significand, ties to the even significand, \<open>PosInfinity\<close> from \<open>2^1024\<close>
  on.
\<close>

datatype number = Finite nat | PosInfinity

fun bit_length :: "nat \<Rightarrow> nat" where
  "bit_length n = (if n = 0 then 0 else Suc (bit_length (n div 2)))"

declare bit_length.simps [simp del]

definition round_double :: "nat \<Rightarrow> number" where
  "round_double n =
     (if n < 2 ^ 53 then Finite n
      else
        let e = bit_length n - 53;
            q = n div 2 ^ e;
            r = n mod 2 ^ e;
            q' = (if 2 * r > 2 ^ e \<or> (2 * r = 2 ^ e \<and> odd q) then q + 1 else q)
        in if q' * 2 ^ e \<ge> 2 ^ 1024 then PosInfinity else Finite (q' * 2 ^ e))"

text \<open>
  \<^verbatim>\<open>parseInt(match[1], 10)\<close> on a string of decimal digits, \<^verbatim>\<open>number > maxSuffix\<close>
  and \<^verbatim>\<open>maxSuffix + 1\<close>.  (For more than 20 digits the language lets an engine
  replace the digits after the 20th by zeros before rounding; the model rounds the
  exact value.)
\<close>

definition parseInt :: "string \<Rightarrow> number" where
  "parseInt ds = round_double (nat_of_digits ds)"

fun number_gt :: "number \<Rightarrow> number \<Rightarrow> bool" where
  "number_gt (Finite a) (Finite b) = (a > b)"
| "number_gt PosInfinity (Finite b) = True"
| "number_gt a PosInfinity = False"

fun plus_one :: "number \<Rightarrow> number" where
  "plus_one (Finite a) = round_double (a + 1)"
| "plus_one PosInfinity = PosInfinity"

text \<open>
  \<^verbatim>\<open>Number.prototype.toString\<close>, which the template string applies.  Up to \<open>2^53\<close>
  every integer is a double of its own and prints as its decimal digits.  Above, the
  digits are those of the integer with the fewest significant digits that still
  rounds to the double (the closest one, if several), padded with zeros, and from 22
  digits on the exponent notation is used.  \<open>shortest x D k\<close> searches that integer
  for a double \<open>x\<close> of \<open>D\<close> decimal digits, trying \<open>k\<close> significant digits first.
\<close>

function shortest :: "nat \<Rightarrow> nat \<Rightarrow> nat \<Rightarrow> nat" where
  "shortest x D k =
     (if k \<ge> D then x
      else
        let g = 10 ^ (D - k);
            lo = (x div g) * g;
            hi = lo + g;
            okLo = (round_double lo = Finite x);
            okHi = (round_double hi = Finite x)
        in if okLo \<and> okHi then
             (if x - lo < hi - x then lo
              else if hi - x < x - lo then hi
              else if even (x div g) then lo else hi)
           else if okLo then lo
           else if okHi then hi
           else shortest x D (Suc k))"
  by pat_completeness auto
termination
  by (relation "measure (\<lambda>(x, D, k). D - k)") auto

declare shortest.simps [simp del]

definition strip_zeros :: "string \<Rightarrow> string" where
  "strip_zeros s = rev (dropWhile (\<lambda>ch. ch = CHR ''0'') (rev s))"

definition Number_toString :: "number \<Rightarrow> string" where
  "Number_toString v =
     (case v of
        PosInfinity \<Rightarrow> ''Infinity''
      | Finite x \<Rightarrow>
          if x \<le> 2 ^ 53 then string_of_nat x
          else
            let y = string_of_nat (shortest x (length (string_of_nat x)) 1);
                n = length y
            in if n \<le> 21 then y
               else
                 (case strip_zeros y of
                    [] \<Rightarrow> []
                  | d # ds \<Rightarrow>
                      (if ds = [] then [d] else d # ''.'' @ ds) @ ''e+'' @ string_of_nat (n - 1)))"

text \<open>
  Modelled from the spec: \<^verbatim>\<open>PostRepo.slugExists\<close> and \<^verbatim>\<open>PostRepo.findSimilarSlugs\<close>
  (posts.data.ts is not among the sources).  Section 4.6: the slug is taken when a
  post other than the excluded one has it; the similar slugs are the existing slugs
  that start with the base slug and a hyphen (the source's comment: all
  \<^verbatim>\<open>'hello-world-%'\<close>), again without the excluded post.  \<^verbatim>\<open>generateSlug\<close>
  filters the list again with its regular expression; for a base slug without
  characters special in a regular expression only a slug with this prefix matches it,
  so a query that returns more slugs than these gives the same result then.
\<close>

definition not_excluded :: "nat option \<Rightarrow> post \<Rightarrow> bool" where
  "not_excluded excludeId p = (case excludeId of None \<Rightarrow> True | Some e \<Rightarrow> post_id p \<noteq> e)"

definition PostRepo_slugExists :: "post list \<Rightarrow> string \<Rightarrow> nat option \<Rightarrow> bool" where
  "PostRepo_slugExists rows s excludeId =
     list_ex (\<lambda>p. slug p = s \<and> not_excluded excludeId p) rows"

definition PostRepo_findSimilarSlugs :: "post list \<Rightarrow> string \<Rightarrow> nat option \<Rightarrow> string list" where
  "PostRepo_findSimilarSlugs rows baseSlug excludeId =
     map slug
       (filter (\<lambda>p. take (length (baseSlug @ ''-'')) (slug p) = baseSlug @ ''-''
                     \<and> not_excluded excludeId p) rows)"

text \<open>
  \<^verbatim>\<open>new RegExp(`^${baseSlug}-(\\d+)$`)\<close> puts the base slug into the pattern as it
  is.  When the base slug holds no character that is special in a regular expression
  (\<open>regex_plain\<close>), the pattern matches exactly the base slug, a hyphen and one or
  more ASCII digits up to the end of the string (there is no \<^verbatim>\<open>m\<close> flag), and
  \<open>match_numbered\<close> gives the captured digits, or \<open>None\<close> for \<^verbatim>\<open>null\<close>.

  For any other base slug the pattern means something else or does not compile, and what
  it means is the regular-expression engine's: \<open>engine\<close>, a parameter, gives for a
  pattern \<open>None\<close> when \<^verbatim>\<open>new RegExp\<close> throws \<^verbatim>\<open>SyntaxError\<close>, and otherwise, for each
  slug, the number that \<^verbatim>\<open>parseInt(slug.match(regex)[1], 10)\<close> reads, with \<open>None\<close>
  when the slug does not match or the number read is \<^verbatim>\<open>NaN\<close> or negative (such a
  number is never greater than \<^verbatim>\<open>maxSuffix\<close>).  \<open>RegExp_numbered\<close> is the regular
  expression of \<^verbatim>\<open>generateSlug\<close> as the loop uses it: from a slug to the number read.
\<close>

datatype js_exception = SyntaxError

definition regex_plain :: "string \<Rightarrow> bool" where
  "regex_plain s =
     list_all (\<lambda>ch. ch \<notin> set (CHR 0x5C # ''^$.|?*+()[]{}/'')) s"

definition match_numbered :: "string \<Rightarrow> string \<Rightarrow> string option" where
  "match_numbered baseSlug s =
     (let pre = baseSlug @ ''-'';
          ds = drop (length pre) s
      in if take (length pre) s = pre \<and> ds \<noteq> [] \<and> list_all is_digit ds
         then Some ds else None)"

definition numbered_pattern :: "string \<Rightarrow> string" where
  "numbered_pattern baseSlug = ''^'' @ baseSlug @ ''-('' @ [CHR 0x5C] @ ''d+)$''"

definition RegExp_numbered ::
  "(string \<Rightarrow> (string \<Rightarrow> number option) option) \<Rightarrow> string
     \<Rightarrow> js_exception + (string \<Rightarrow> number option)" where
  "RegExp_numbered engine baseSlug =
     (if regex_plain baseSlug
      then Inr (\<lambda>s. map_option parseInt (match_numbered baseSlug s))
      else
        (case engine (numbered_pattern baseSlug) of
           None \<Rightarrow> Inl SyntaxError
         | Some regex \<Rightarrow> Inr regex))"

text \<open>
  \<^verbatim>\<open>generateSlug\<close> (posts.service.ts, lines 189-224).  \<^verbatim>\<open>slugify\<close>
  (utils/content.ts) is not among the sources and is a parameter.  The regular
  expression is built after the similar slugs are fetched, so a \<^verbatim>\<open>SyntaxError\<close> is
  raised only when the base slug is taken.  The loop over the similar slugs is a fold
  that carries \<^verbatim>\<open>maxSuffix\<close>.
\<close>

record GenerateSlugInput =
  gs_title :: string
  gs_excludeId :: "nat option"

definition generateSlug ::
  "(string \<Rightarrow> (string \<Rightarrow> number option) option) \<Rightarrow> (string \<Rightarrow> string)
     \<Rightarrow> ctx \<Rightarrow> GenerateSlugInput \<Rightarrow> js_exception + string" where
  "generateSlug engine slugify c d =
     (let baseSlug = slugify (gs_title d);
          exactMatch = PostRepo_slugExists (db c) baseSlug (gs_excludeId d)
      in if \<not> exactMatch then Inr baseSlug
         else
           let similarSlugs = PostRepo_findSimilarSlugs (db c) baseSlug (gs_excludeId d)
           in case RegExp_numbered engine baseSlug of
                Inl e \<Rightarrow> Inl e
              | Inr regex \<Rightarrow>
                  (let maxSuffix =
                         foldl (\<lambda>maxSuffix s.
                                  case regex s of
                                    None \<Rightarrow> maxSuffix
                                  | Some number \<Rightarrow>
                                      if number_gt number maxSuffix then number else maxSuffix)
                           (Finite 0) similarSlugs
                   in Inr (baseSlug @ ''-'' @ Number_toString (plus_one maxSuffix))))"

text \<open>
  The numeric suffixes in the words of the specification: the numbers \<open>N\<close> for which
  a post other than the excluded one has the slug \<open>base-<N>\<close>, where \<open><N>\<close> is any
  non-empty string of decimal digits that denotes \<open>N\<close>.
\<close>

definition numbered_suffixes :: "post list \<Rightarrow> string \<Rightarrow> nat option \<Rightarrow> nat set" where
  "numbered_suffixes rows baseSlug excludeId =
     {nat_of_digits ds | ds p.
        p \<in> set rows \<and> not_excluded excludeId p \<and> slug p = baseSlug @ ''-'' @ ds
        \<and> ds \<noteq> [] \<and> list_all is_digit ds}"

section \<open>Example data\<close>

definition example_post :: "nat \<Rightarrow> string \<Rightarrow> post" where
  "example_post i s =
     \<lparr>post_id = i, title = s, slug = s, status = ''published'', contentJson = Some ''doc'',
      summary = None, publishedAt = Some 0, readTimeInMinutes = 1, tags = []\<rparr>"

definition example_hash :: "post_hash_input \<Rightarrow> string" where
  "example_hash h = ''h:'' @ hash_title h"

definition example_ctx :: ctx where
  "example_ctx =
     \<lparr>db = [example_post 1 ''hello'', (example_post 2 ''note'')\<lparr>status := ''draft''\<rparr>],
      KV = [POSTS_CACHE_KEYS_syncHash 1 \<mapsto> ''h:hello''],
      versions = Map.empty,
      waitUntil = []\<rparr>"

definition example_paginate :: "nat option \<Rightarrow> nat option \<Rightarrow> post list \<Rightarrow> list_response" where
  "example_paginate cur lim xs =
     \<lparr>items = take (case lim of None \<Rightarrow> 10 | Some n \<Rightarrow> n) xs, nextCursor = None\<rparr>"

definition example_decode :: "string \<Rightarrow> list_response option" where
  "example_decode raw = (if raw = ''stale'' then Some \<lparr>items = [], nextCursor = None\<rparr> else None)"

definition example_cached_ctx :: ctx where
  "example_cached_ctx =
     example_ctx\<lparr>KV := [''posts:list:3:10:0:all'' \<mapsto> ''stale''],
                 versions := [''posts:list'' \<mapsto> 3]\<rparr>"

definition example_input :: GetPostsCursorInput where
  "example_input = \<lparr>in_cursor = None, in_limit = None, in_tagName = None\<rparr>"

definition example_rows :: "post list" where
  "example_rows =
     [example_post 1 ''hello'',
      (example_post 2 ''note'')\<lparr>status := ''draft''\<rparr>,
      (example_post 3 ''soon'')\<lparr>publishedAt := Some 59999\<rparr>,
      (example_post 4 ''later'')\<lparr>publishedAt := Some 60000\<rparr>,
      (example_post 5 ''undated'')\<lparr>publishedAt := None\<rparr>]"

definition example_toISOString :: "int \<Rightarrow> string" where
  "example_toISOString t =
     (if t = 60000 then ''1970-01-01T00:01:00.000Z''
      else if t = 59999 then ''1970-01-01T00:00:59.999Z''
      else ''1970-01-01T00:00:00.000Z'')"

definition example_Date_parse :: "string \<Rightarrow> int option" where
  "example_Date_parse s =
     (if s = ''1970-01-01T00:01:00.000Z'' then Some 60000
      else if s = ''1970-01-01T00:00:59.999Z'' then Some 59999
      else if s = ''1970-01-01T00:00:00.000Z'' then Some 0
      else None)"

definition example_clock :: clock where
  "example_clock = \<lparr>t_stamp = 30000, t_check = 30001, t_schedule = 30002\<rparr>"

definition example_wctx :: wctx where
  "example_wctx =
     \<lparr>db = example_rows, KV = Map.empty, versions = Map.empty, waitUntil = [],
      scheduled = [''post-4-scheduled'' \<mapsto> Completed], calls = []\<rparr>"

definition example_publish :: "nat \<Rightarrow> StartPostProcessInput" where
  "example_publish i = \<lparr>sp_id = i, sp_status = ''published'', sp_clientToday = None\<rparr>"

definition slug_rows :: "string list \<Rightarrow> post list" where
  "slug_rows ss = map (\<lambda>(i, s). example_post (Suc i) s) (enumerate 0 ss)"

definition slug_ctx :: "string list \<Rightarrow> ctx" where
  "slug_ctx ss = \<lparr>db = slug_rows ss, KV = Map.empty, versions = Map.empty, waitUntil = []\<rparr>"

definition example_related_ctx :: ctx where
  "example_related_ctx = example_ctx\<lparr>KV := [''posts:related:hello:3'' \<mapsto> ''[5,2,9]'']\<rparr>"

definition example_decode_ids :: "string \<Rightarrow> nat list option" where
  "example_decode_ids raw = (if raw = ''[5,2,9]'' then Some [5, 2, 9] else None)"

chapter \<open>Properties\<close>

section \<open>Decimal numerals in strings\<close>

lemma digit_val_digit_chars: "k < 10 \<Longrightarrow> digit_val (digit_chars ! k) = k"
proof -
  assume "k < 10"
  then have "k \<in> {0, 1, 2, 3, 4, 5, 6, 7, 8, 9}" by auto
  then show ?thesis
    by (auto simp: digit_val_def digit_chars_def)
qed

lemma is_digit_digit_chars: "k < 10 \<Longrightarrow> is_digit (digit_chars ! k)"
proof -
  assume "k < 10"
  then have "k \<in> {0, 1, 2, 3, 4, 5, 6, 7, 8, 9}" by auto
  then show ?thesis
    by (auto simp: is_digit_def digit_chars_def)
qed

lemma nat_of_digits_snoc: "nat_of_digits (ds @ [c]) = 10 * nat_of_digits ds + digit_val c"
  by (simp add: nat_of_digits_def)

lemma nat_of_digits_string_of_nat: "nat_of_digits (string_of_nat n) = n"
proof (induction n rule: string_of_nat.induct)
  case (1 n)
  show ?case
  proof (cases "n < 10")
    case True
    then show ?thesis
      by (simp add: string_of_nat.simps [of n] nat_of_digits_def digit_val_digit_chars)
  next
    case False
    with 1 have "nat_of_digits (string_of_nat (n div 10)) = n div 10" by simp
    with False show ?thesis
      by (simp add: string_of_nat.simps [of n] nat_of_digits_snoc digit_val_digit_chars)
  qed
qed

lemma string_of_nat_inj: "string_of_nat m = string_of_nat n \<Longrightarrow> m = n"
  by (metis nat_of_digits_string_of_nat)

lemma string_of_nat_digits: "\<forall>c \<in> set (string_of_nat n). is_digit c"
proof (induction n rule: string_of_nat.induct)
  case (1 n)
  show ?case
  proof (cases "n < 10")
    case True
    then show ?thesis
      by (simp add: string_of_nat.simps [of n] is_digit_digit_chars)
  next
    case False
    with 1 have "\<forall>c \<in> set (string_of_nat (n div 10)). is_digit c" by simp
    with False show ?thesis
      by (simp add: string_of_nat.simps [of n] is_digit_digit_chars)
  qed
qed

lemma string_of_nat_nonempty: "string_of_nat n \<noteq> []"
  by (simp add: string_of_nat.simps [of n])

section \<open>Admin synchronisation state\<close>

lemma PostRepo_findPostById_id:
  "PostRepo_findPostById rows i = Some p \<Longrightarrow> post_id p = i \<and> p \<in> set rows"
  by (auto simp: PostRepo_findPostById_def find_Some_iff)

text \<open>
  Claim C2.  For an existing post, \<open>findPostById\<close> returns the row with \<open>isSynced\<close>
  set as follows: for a draft, true exactly when the cache holds no sync-hash entry
  for the post's id; for any other status, true exactly when the stored entry equals
  the hash computed from title, contentJson, summary, tag ids, slug, publishedAt and
  readTimeInMinutes of the row.
\<close>

theorem findPostById_isSynced:
  assumes "PostRepo_findPostById (db c) i = Some p"
  shows "\<exists>r. findPostById calculatePostHash c i = Some r
           \<and> post.truncate r = p
           \<and> (status p = ''draft'' \<longrightarrow>
                 (isSynced r \<longleftrightarrow> KV c (POSTS_CACHE_KEYS_syncHash i) = None))
           \<and> (status p \<noteq> ''draft'' \<longrightarrow>
                 (isSynced r \<longleftrightarrow>
                    KV c (POSTS_CACHE_KEYS_syncHash i) =
                      Some (calculatePostHash
                        \<lparr>hash_title = title p,
                         hash_contentJson = contentJson p,
                         hash_summary = summary p,
                         hash_tagIds = map tag_id (tags p),
                         hash_slug = slug p,
                         hash_publishedAt = publishedAt p,
                         hash_readTimeInMinutes = readTimeInMinutes p\<rparr>)))"
proof -
  from assms have i: "post_id p = i"
    by (simp add: PostRepo_findPostById_id)
  show ?thesis
    using assms i
    by (auto simp: findPostById_def CacheService_getRaw_def Let_def
        post.extend_def post.truncate_def admin_post.fields_def admin_post.defs)
qed

text \<open>
  Post 1 is published and the stored hash is the hash of its row; post 2 is a draft
  without a stored hash: both report \<open>isSynced\<close>.  With another hash stored for post
  1, it reports that it is not synced.
\<close>

theorem findPostById_isSynced_witness:
  "PostRepo_findPostById (db example_ctx) 1 = Some (example_post 1 ''hello'')
   \<and> PostRepo_findPostById (db example_ctx) 2 = Some ((example_post 2 ''note'')\<lparr>status := ''draft''\<rparr>)
   \<and> (\<exists>r. findPostById example_hash example_ctx 1 = Some r \<and> isSynced r)
   \<and> (\<exists>r. findPostById example_hash example_ctx 2 = Some r \<and> isSynced r)
   \<and> (\<exists>r. findPostById example_hash
              (example_ctx\<lparr>KV := [POSTS_CACHE_KEYS_syncHash 1 \<mapsto> ''h:old'']\<rparr>) 1 = Some r
          \<and> \<not> isSynced r)"
proof -
  let ?stale = "example_ctx\<lparr>KV := [POSTS_CACHE_KEYS_syncHash 1 \<mapsto> ''h:old'']\<rparr>"
  have f1: "PostRepo_findPostById (db example_ctx) 1 = Some (example_post 1 ''hello'')"
    by (simp add: PostRepo_findPostById_def example_ctx_def example_post_def)
  have f2: "PostRepo_findPostById (db example_ctx) 2
      = Some ((example_post 2 ''note'')\<lparr>status := ''draft''\<rparr>)"
    by (simp add: PostRepo_findPostById_def example_ctx_def example_post_def)
  have f3: "PostRepo_findPostById (db ?stale) 1 = Some (example_post 1 ''hello'')"
    by (simp add: PostRepo_findPostById_def example_ctx_def example_post_def)
  have k1: "KV example_ctx (POSTS_CACHE_KEYS_syncHash 1) = Some ''h:hello''"
    by (simp add: example_ctx_def)
  have k2: "KV example_ctx (POSTS_CACHE_KEYS_syncHash 2) = None"
    by (simp add: example_ctx_def POSTS_CACHE_KEYS_syncHash_def string_of_nat.simps digit_chars_def)
  have k3: "KV ?stale (POSTS_CACHE_KEYS_syncHash 1) = Some ''h:old''"
    by simp
  from findPostById_isSynced [OF f1, of example_hash]
  have r1: "\<exists>r. findPostById example_hash example_ctx 1 = Some r \<and> isSynced r"
    using k1 by (auto simp: example_post_def example_hash_def)
  from findPostById_isSynced [OF f2, of example_hash]
  have r2: "\<exists>r. findPostById example_hash example_ctx 2 = Some r \<and> isSynced r"
    using k2 by (auto simp: example_post_def)
  from findPostById_isSynced [OF f3, of example_hash]
  have r3: "\<exists>r. findPostById example_hash ?stale 1 = Some r \<and> \<not> isSynced r"
    using k3 by (auto simp: example_post_def example_hash_def)
  from f1 f2 r1 r2 r3 show ?thesis by blast
qed

section \<open>Related posts\<close>

lemma find_post_id_Some:
  "i \<in> post_id ` set ps \<Longrightarrow> \<exists>p. find (\<lambda>p. post_id p = i) ps = Some p \<and> p \<in> set ps \<and> post_id p = i"
  by (induction ps) auto

lemma find_post_id_None:
  "i \<notin> post_id ` set ps \<Longrightarrow> find (\<lambda>p. post_id p = i) ps = None"
  by (induction ps) auto

lemma find_post_id_distinct:
  "distinct (map post_id ps) \<Longrightarrow> q \<in> set ps \<Longrightarrow> find (\<lambda>p. post_id p = post_id q) ps = Some q"
  by (induction ps) (auto simp: image_iff)

lemma restore_order_ids:
  "map post_id (map the (filter (\<lambda>p. p \<noteq> None) (map (\<lambda>i. find (\<lambda>p. post_id p = i) ps) ids)))
     = filter (\<lambda>i. i \<in> post_id ` set ps) ids"
proof (induction ids)
  case Nil
  show ?case by simp
next
  case (Cons i ids)
  show ?case
  proof (cases "i \<in> post_id ` set ps")
    case True
    then obtain p where "find (\<lambda>p. post_id p = i) ps = Some p" "post_id p = i"
      using find_post_id_Some by blast
    with True Cons show ?thesis by simp
  next
    case False
    then have "find (\<lambda>p. post_id p = i) ps = None"
      by (rule find_post_id_None)
    with False Cons show ?thesis by simp
  qed
qed

lemma restore_order_subset:
  "set (map the (filter (\<lambda>p. p \<noteq> None) (map (\<lambda>i. find (\<lambda>p. post_id p = i) ps) ids))) \<subseteq> set ps"
proof
  fix q
  assume "q \<in> set (map the (filter (\<lambda>p. p \<noteq> None) (map (\<lambda>i. find (\<lambda>p. post_id p = i) ps) ids)))"
  then obtain i where "find (\<lambda>p. post_id p = i) ps = Some q"
    by auto
  then show "q \<in> set ps"
    by (auto simp: find_Some_iff)
qed

lemma restore_order_all:
  assumes "distinct (map post_id ps)" and "post_id ` set ps \<subseteq> set ids"
  shows "set ps \<subseteq> set (map the (filter (\<lambda>p. p \<noteq> None) (map (\<lambda>i. find (\<lambda>p. post_id p = i) ps) ids)))"
proof
  fix q
  assume q: "q \<in> set ps"
  then have f: "find (\<lambda>p. post_id p = post_id q) ps = Some q"
    using assms(1) by (rule find_post_id_distinct [rotated])
  from q assms(2) have "post_id q \<in> set ids" by auto
  with f have "Some q \<in> set (filter (\<lambda>p. p \<noteq> None) (map (\<lambda>i. find (\<lambda>p. post_id p = i) ps) ids))"
    by force
  then have "the (Some q) \<in> the ` set (filter (\<lambda>p. p \<noteq> None) (map (\<lambda>i. find (\<lambda>p. post_id p = i) ps) ids))"
    by (rule imageI)
  then show "q \<in> set (map the (filter (\<lambda>p. p \<noteq> None) (map (\<lambda>i. find (\<lambda>p. post_id p = i) ps) ids)))"
    by simp
qed

lemma db_CacheService_get: "db (snd (CacheService_get c k decode encode fetcher)) = db c"
  by (simp add: CacheService_get_def Let_def split: option.splits)

text \<open>
  Claim C3.  Let \<open>cachedIds\<close> be the id sequence the cache-aside fetch yields and
  \<open>posts\<close> whatever the bulk lookup returns for it.  The ids of the result of
  \<open>getRelatedPosts\<close> are the cached ids, in cached order, with every id that has no
  returned post dropped; nothing but returned posts is in the result; no error arises
  (the function is total); and when the returned posts have distinct ids among the
  cached ids, every returned post is in the result.
\<close>

theorem getRelatedPosts_cached_order:
  assumes "fst (CacheService_get c (POSTS_CACHE_KEYS_related (rel_slug d) (rel_limit d))
             decode encode (\<lambda>u. getRelatedPostIds (db c) (rel_slug d) (rel_limit d))) = cachedIds"
      and "getPublicPostsByIds (db c) cachedIds = posts"
  shows "map post_id (fst (getRelatedPosts decode encode getRelatedPostIds getPublicPostsByIds c d))
           = filter (\<lambda>i. i \<in> post_id ` set posts) cachedIds
         \<and> set (fst (getRelatedPosts decode encode getRelatedPostIds getPublicPostsByIds c d))
             \<subseteq> set posts
         \<and> (distinct (map post_id posts) \<and> post_id ` set posts \<subseteq> set cachedIds
              \<longrightarrow> set (fst (getRelatedPosts decode encode getRelatedPostIds getPublicPostsByIds c d))
                    = set posts)"
proof -
  let ?g = "CacheService_get c (POSTS_CACHE_KEYS_related (rel_slug d) (rel_limit d))
             decode encode (\<lambda>u. getRelatedPostIds (db c) (rel_slug d) (rel_limit d))"
  obtain c1 where g: "?g = (cachedIds, c1)"
    using assms(1) by (cases ?g) simp
  have "db (snd ?g) = db c"
    by (rule db_CacheService_get)
  with g have c1: "db c1 = db c"
    by simp
  show ?thesis
  proof (cases "cachedIds = []")
    case True
    with g show ?thesis
      by (simp add: getRelatedPosts_def)
  next
    case False
    with g c1 assms(2) have unfold:
      "fst (getRelatedPosts decode encode getRelatedPostIds getPublicPostsByIds c d) =
        map the (filter (\<lambda>p. p \<noteq> None) (map (\<lambda>i. find (\<lambda>p. post_id p = i) posts) cachedIds))"
      by (simp add: getRelatedPosts_def Let_def)
    show ?thesis
      unfolding unfold
      using restore_order_ids [of posts cachedIds] restore_order_subset [of posts cachedIds]
        restore_order_all [of posts cachedIds]
      by blast
  qed
qed

text \<open>
  The example of the specification: the cache holds the ids [5, 2, 9], the repository
  returns the posts 2 and 5 (9 is gone), the result is the posts 5 and 2 in that order.
\<close>

theorem getRelatedPosts_cached_order_witness:
  "fst (CacheService_get example_related_ctx (POSTS_CACHE_KEYS_related ''hello'' 3)
          example_decode_ids (\<lambda>ids. ''[]'') (\<lambda>u. [])) = [5, 2, 9]
   \<and> fst (getRelatedPosts example_decode_ids (\<lambda>ids. ''[]'') (\<lambda>rows s n. [])
            (\<lambda>rows ids. [example_post 2 ''b'', example_post 5 ''a''])
            example_related_ctx \<lparr>rel_slug = ''hello'', rel_limit = 3\<rparr>)
       = [example_post 5 ''a'', example_post 2 ''b'']
   \<and> map post_id (fst (getRelatedPosts example_decode_ids (\<lambda>ids. ''[]'') (\<lambda>rows s n. [])
            (\<lambda>rows ids. [example_post 2 ''b'', example_post 5 ''a''])
            example_related_ctx \<lparr>rel_slug = ''hello'', rel_limit = 3\<rparr>))
       = [5, 2]"
proof -
  have k: "POSTS_CACHE_KEYS_related ''hello'' 3 = ''posts:related:hello:3''"
    by (simp add: POSTS_CACHE_KEYS_related_def string_of_nat.simps digit_chars_def)
  have g: "fst (CacheService_get example_related_ctx (POSTS_CACHE_KEYS_related ''hello'' 3)
          example_decode_ids (\<lambda>ids. ''[]'') (\<lambda>u. [])) = [5, 2, 9]"
    by (simp add: k CacheService_get_def example_related_ctx_def example_decode_ids_def)
  have r: "fst (getRelatedPosts example_decode_ids (\<lambda>ids. ''[]'') (\<lambda>rows s n. [])
            (\<lambda>rows ids. [example_post 2 ''b'', example_post 5 ''a''])
            example_related_ctx \<lparr>rel_slug = ''hello'', rel_limit = 3\<rparr>)
       = [example_post 5 ''a'', example_post 2 ''b'']"
    by (simp add: getRelatedPosts_def k CacheService_get_def example_related_ctx_def
        example_decode_ids_def example_post_def)
  from getRelatedPosts_cached_order [where c = example_related_ctx
      and d = "\<lparr>rel_slug = ''hello'', rel_limit = 3\<rparr>" and decode = example_decode_ids
      and encode = "\<lambda>ids. ''[]''" and getRelatedPostIds = "\<lambda>rows s n. []"
      and getPublicPostsByIds = "\<lambda>rows ids. [example_post 2 ''b'', example_post 5 ''a'']"
      and cachedIds = "[5, 2, 9]" and posts = "[example_post 2 ''b'', example_post 5 ''a'']"]
  have i: "map post_id (fst (getRelatedPosts example_decode_ids (\<lambda>ids. ''[]'') (\<lambda>rows s n. [])
            (\<lambda>rows ids. [example_post 2 ''b'', example_post 5 ''a''])
            example_related_ctx \<lparr>rel_slug = ''hello'', rel_limit = 3\<rparr>))
       = [5, 2]"
    using g by (simp add: example_post_def)
  from g r i show ?thesis by blast
qed

section \<open>Deleting and updating posts\<close>

lemma PostRepo_deletePost_gone: "PostRepo_findPostById (PostRepo_deletePost rows i) i = None"
  by (simp add: PostRepo_findPostById_def PostRepo_deletePost_def find_None_iff)

lemma find_filter_other:
  "j \<noteq> i \<Longrightarrow> find (\<lambda>p. post_id p = j) (filter (\<lambda>p. post_id p \<noteq> i) rows) = find (\<lambda>p. post_id p = j) rows"
  by (induction rows) auto

lemma PostRepo_deletePost_others:
  "j \<noteq> i \<Longrightarrow> PostRepo_findPostById (PostRepo_deletePost rows i) j = PostRepo_findPostById rows j"
  by (simp add: PostRepo_findPostById_def PostRepo_deletePost_def find_filter_other)

text \<open>
  Claim C5.  For an existing post, \<open>deletePost\<close> removes the row (the id is no longer
  found, every other row is as before) and registers one deferred batch.  If the post
  was published the batch is exactly the five tasks: delete of the detail key built
  from the current \<open>posts:detail\<close> version and the post's slug, bump of the
  \<open>posts:list\<close> version, search-index delete for the id, CDN purge for the slug, and
  delete of the sync-hash key.  For any other status the batch is the sync-hash delete
  alone, and the context is otherwise unchanged: no cache entry, version counter or
  other deferred work is touched.
\<close>

theorem deletePost_cleanup:
  assumes "PostRepo_findPostById (db c) i = Some p"
  shows "db (deletePost c i) = PostRepo_deletePost (db c) i
         \<and> PostRepo_findPostById (db (deletePost c i)) i = None
         \<and> (\<forall>j. j \<noteq> i \<longrightarrow>
               PostRepo_findPostById (db (deletePost c i)) j = PostRepo_findPostById (db c) j)
         \<and> KV (deletePost c i) = KV c
         \<and> (status p = ''published'' \<longrightarrow>
               waitUntil (deletePost c i) = waitUntil c @
                 [[DeleteKey (POSTS_CACHE_KEYS_detail
                      (fst (CacheService_getVersion c ''posts:detail'')) (slug p)),
                   BumpVersion ''posts:list'',
                   SearchDeleteIndex i,
                   PurgePostCDNCache (slug p),
                   DeleteKey (POSTS_CACHE_KEYS_syncHash i)]])
         \<and> (status p \<noteq> ''published'' \<longrightarrow>
               deletePost c i =
                 c\<lparr>db := PostRepo_deletePost (db c) i,
                   waitUntil := waitUntil c @ [[DeleteKey (POSTS_CACHE_KEYS_syncHash i)]]\<rparr>)"
proof -
  have d: "db (deletePost c i) = PostRepo_deletePost (db c) i"
    using assms
    by (simp add: deletePost_def Let_def CacheService_getVersion_def split: option.splits)
  have k: "KV (deletePost c i) = KV c"
    using assms
    by (simp add: deletePost_def Let_def CacheService_getVersion_def split: option.splits)
  have pub: "status p = ''published'' \<Longrightarrow>
      waitUntil (deletePost c i) = waitUntil c @
        [[DeleteKey (POSTS_CACHE_KEYS_detail
             (fst (CacheService_getVersion c ''posts:detail'')) (slug p)),
          BumpVersion ''posts:list'',
          SearchDeleteIndex i,
          PurgePostCDNCache (slug p),
          DeleteKey (POSTS_CACHE_KEYS_syncHash i)]]"
    using assms
    by (simp add: deletePost_def Let_def CacheService_getVersion_def split: option.splits)
  have other: "status p \<noteq> ''published'' \<Longrightarrow>
      deletePost c i =
        c\<lparr>db := PostRepo_deletePost (db c) i,
          waitUntil := waitUntil c @ [[DeleteKey (POSTS_CACHE_KEYS_syncHash i)]]\<rparr>"
    using assms by (simp add: deletePost_def Let_def)
  show ?thesis
    using d k pub other
    by (simp add: PostRepo_deletePost_gone PostRepo_deletePost_others)
qed

text \<open>
  In the example context post 1 is published and post 2 is a draft; no version counter
  exists yet, so the detail version read is 1.
\<close>

theorem deletePost_cleanup_witness:
  "PostRepo_findPostById (db example_ctx) 1 = Some (example_post 1 ''hello'')
   \<and> waitUntil (deletePost example_ctx 1) =
       [[DeleteKey ''posts:detail:1:hello'',
         BumpVersion ''posts:list'',
         SearchDeleteIndex 1,
         PurgePostCDNCache ''hello'',
         DeleteKey ''posts:sync-hash:1'']]
   \<and> PostRepo_findPostById (db example_ctx) 2 = Some ((example_post 2 ''note'')\<lparr>status := ''draft''\<rparr>)
   \<and> deletePost example_ctx 2 =
       example_ctx\<lparr>db := [example_post 1 ''hello''],
                   waitUntil := [[DeleteKey ''posts:sync-hash:2'']]\<rparr>"
proof -
  have f1: "PostRepo_findPostById (db example_ctx) 1 = Some (example_post 1 ''hello'')"
    by (simp add: PostRepo_findPostById_def example_ctx_def example_post_def)
  have f2: "PostRepo_findPostById (db example_ctx) 2
      = Some ((example_post 2 ''note'')\<lparr>status := ''draft''\<rparr>)"
    by (simp add: PostRepo_findPostById_def example_ctx_def example_post_def)
  have v: "fst (CacheService_getVersion example_ctx ''posts:detail'') = 1"
    by (simp add: CacheService_getVersion_def example_ctx_def)
  have keys: "POSTS_CACHE_KEYS_detail 1 ''hello'' = ''posts:detail:1:hello''"
    "POSTS_CACHE_KEYS_syncHash 1 = ''posts:sync-hash:1''"
    "POSTS_CACHE_KEYS_syncHash 2 = ''posts:sync-hash:2''"
    by (simp_all add: POSTS_CACHE_KEYS_detail_def POSTS_CACHE_KEYS_syncHash_def
        string_of_nat.simps digit_chars_def)
  have w: "waitUntil example_ctx = []"
    by (simp add: example_ctx_def)
  have r: "PostRepo_deletePost (db example_ctx) 2 = [example_post 1 ''hello'']"
    by (simp add: PostRepo_deletePost_def example_ctx_def example_post_def)
  from deletePost_cleanup [OF f1] have a:
    "waitUntil (deletePost example_ctx 1) =
       [[DeleteKey ''posts:detail:1:hello'',
         BumpVersion ''posts:list'',
         SearchDeleteIndex 1,
         PurgePostCDNCache ''hello'',
         DeleteKey ''posts:sync-hash:1'']]"
    by (simp add: v keys keys [unfolded One_nat_def] w example_post_def)
  from deletePost_cleanup [OF f2] have b:
    "deletePost example_ctx 2 =
       example_ctx\<lparr>db := [example_post 1 ''hello''],
                   waitUntil := [[DeleteKey ''posts:sync-hash:2'']]\<rparr>"
    by (simp add: keys keys [unfolded One_nat_def] w r example_post_def)
  from f1 a f2 b show ?thesis by blast
qed

text \<open>
  Claim C10.  For an id that matches no post, \<open>deletePost\<close> returns the context it was
  given: no error value exists in its result type, the table is not touched and no
  deferred task is registered.  \<open>updatePost\<close> on the same id raises
  \<open>Post_not_found\<close>.
\<close>

theorem deletePost_missing_noop:
  assumes "PostRepo_findPostById (db c) i = None"
  shows "deletePost c i = c
         \<and> updatePost calculatePostHash c \<lparr>upd_id = i, upd_data = d\<rparr> = Inl Post_not_found"
  using assms
  by (simp add: deletePost_def updatePost_def PostRepo_updatePost_def PostRepo_findPostById_def)

theorem deletePost_missing_noop_witness:
  "PostRepo_findPostById (db example_ctx) 7 = None
   \<and> deletePost example_ctx 7 = example_ctx
   \<and> updatePost (\<lambda>h. ''h'') example_ctx \<lparr>upd_id = 7, upd_data = empty_patch\<rparr> = Inl Post_not_found"
proof -
  have f: "PostRepo_findPostById (db example_ctx) 7 = None"
    by (simp add: PostRepo_findPostById_def example_ctx_def example_post_def)
  from deletePost_missing_noop [OF f, of "\<lambda>h. ''h''" empty_patch] f
  show ?thesis by simp
qed

lemma post_id_apply_patch: "post_id (apply_patch d p) = post_id p"
  by (simp add: apply_patch_def)

lemma find_map_patch:
  "find (\<lambda>q. post_id q = i) rows = Some p \<Longrightarrow>
   find (\<lambda>q. post_id q = i) (map (\<lambda>q. if post_id q = i then apply_patch d q else q) rows)
     = Some (apply_patch d p)"
  by (induction rows) (auto simp: post_id_apply_patch)

lemma PostRepo_updatePost_found:
  "PostRepo_findPostById rows i = Some p \<Longrightarrow>
   PostRepo_updatePost rows i d =
     (map (\<lambda>q. if post_id q = i then apply_patch d q else q) rows, Some (apply_patch d p))"
  by (simp add: PostRepo_updatePost_def PostRepo_findPostById_def)

text \<open>
  Claim C8, as amended.  For an existing post, \<open>updatePost\<close> applies the partial update
  to the row (every other row is untouched), returns the detail read after the update,
  and registers the media synchronisation with \<open>waitUntil\<close> exactly when the patch
  carries a content field, whether or not the carried content differs from the stored
  one; with no content field nothing is registered.  Cache entries and version counters
  are not touched.
\<close>

theorem updatePost_media_sync:
  assumes "PostRepo_findPostById (db c) i = Some p"
  shows "\<exists>r c'. updatePost calculatePostHash c \<lparr>upd_id = i, upd_data = d\<rparr> = Inr (r, c')
           \<and> db c' = map (\<lambda>q. if post_id q = i then apply_patch d q else q) (db c)
           \<and> PostRepo_findPostById (db c') i = Some (apply_patch d p)
           \<and> r = findPostById calculatePostHash c' i
           \<and> KV c' = KV c \<and> versions c' = versions c
           \<and> (patch_contentJson d = None \<longrightarrow> waitUntil c' = waitUntil c)
           \<and> (\<forall>content. patch_contentJson d = Some content \<longrightarrow>
                 waitUntil c' = waitUntil c @ [[SyncPostMedia i content]])"
proof -
  from assms have i: "post_id p = i"
    by (simp add: PostRepo_findPostById_id)
  from assms have f: "find (\<lambda>q. post_id q = i) (db c) = Some p"
    by (simp add: PostRepo_findPostById_def)
  show ?thesis
  proof (cases "patch_contentJson d")
    case None
    with assms i find_map_patch [OF f, of d] show ?thesis
      by (simp add: updatePost_def PostRepo_updatePost_found post_id_apply_patch
          PostRepo_findPostById_def Let_def)
  next
    case (Some content)
    with assms i find_map_patch [OF f, of d] show ?thesis
      by (simp add: updatePost_def PostRepo_updatePost_found post_id_apply_patch
          PostRepo_findPostById_def Let_def)
  qed
qed

text \<open>
  A patch that carries only a title registers nothing; a patch that carries a document
  registers the synchronisation of that document.
\<close>

theorem updatePost_media_sync_witness:
  "PostRepo_findPostById (db example_ctx) 1 = Some (example_post 1 ''hello'')
   \<and> (\<exists>r c'. updatePost (\<lambda>h. ''h'') example_ctx
                 \<lparr>upd_id = 1, upd_data = empty_patch\<lparr>patch_title := Some ''bye''\<rparr>\<rparr> = Inr (r, c')
          \<and> waitUntil c' = [])
   \<and> (\<exists>r c'. updatePost (\<lambda>h. ''h'') example_ctx
                 \<lparr>upd_id = 1, upd_data = empty_patch\<lparr>patch_contentJson := Some (Some ''new'')\<rparr>\<rparr> = Inr (r, c')
          \<and> waitUntil c' = [[SyncPostMedia 1 (Some ''new'')]])"
proof -
  have f1: "PostRepo_findPostById (db example_ctx) 1 = Some (example_post 1 ''hello'')"
    by (simp add: PostRepo_findPostById_def example_ctx_def example_post_def)
  have w: "waitUntil example_ctx = []"
    by (simp add: example_ctx_def)
  from updatePost_media_sync [OF f1, of "\<lambda>h. ''h''" "empty_patch\<lparr>patch_title := Some ''bye''\<rparr>"]
  have a: "\<exists>r c'. updatePost (\<lambda>h. ''h'') example_ctx
                 \<lparr>upd_id = 1, upd_data = empty_patch\<lparr>patch_title := Some ''bye''\<rparr>\<rparr> = Inr (r, c')
          \<and> waitUntil c' = []"
    by (auto simp: w empty_patch_def)
  from updatePost_media_sync [OF f1, of "\<lambda>h. ''h''" "empty_patch\<lparr>patch_contentJson := Some (Some ''new'')\<rparr>"]
  have b: "\<exists>r c'. updatePost (\<lambda>h. ''h'') example_ctx
                 \<lparr>upd_id = 1, upd_data = empty_patch\<lparr>patch_contentJson := Some (Some ''new'')\<rparr>\<rparr> = Inr (r, c')
          \<and> waitUntil c' = [[SyncPostMedia 1 (Some ''new'')]]"
    by (auto simp: w empty_patch_def)
  from f1 a b show ?thesis by blast
qed

text \<open>
  Claim C8 as stated fails: post 1 of the example holds the document \<open>doc\<close>; a patch
  that carries the same document leaves the table as it was (no content changed), and
  the media synchronisation is registered all the same.
\<close>

theorem updatePost_same_content_counterexample:
  "\<not> isl (updatePost (\<lambda>h. ''h'') example_ctx
            \<lparr>upd_id = 1, upd_data = empty_patch\<lparr>patch_contentJson := Some (Some ''doc'')\<rparr>\<rparr>)
   \<and> db (snd (projr (updatePost (\<lambda>h. ''h'') example_ctx
            \<lparr>upd_id = 1, upd_data = empty_patch\<lparr>patch_contentJson := Some (Some ''doc'')\<rparr>\<rparr>)))
       = db example_ctx
   \<and> waitUntil example_ctx = []
   \<and> waitUntil (snd (projr (updatePost (\<lambda>h. ''h'') example_ctx
            \<lparr>upd_id = 1, upd_data = empty_patch\<lparr>patch_contentJson := Some (Some ''doc'')\<rparr>\<rparr>)))
       = [[SyncPostMedia 1 (Some ''doc'')]]"
  by (simp add: updatePost_def PostRepo_updatePost_def example_ctx_def example_post_def
      empty_patch_def apply_patch_def Let_def)

section \<open>Cache versioning\<close>

lemma append_sep_eq:
  "xs @ ch # r = ys @ ch # r' \<Longrightarrow> ch \<notin> set xs \<Longrightarrow> ch \<notin> set ys \<Longrightarrow> xs = ys"
proof (induction xs arbitrary: ys)
  case Nil
  then show ?case by (cases ys) auto
next
  case (Cons x xs)
  then show ?case by (cases ys) auto
qed

lemma colon_not_digit: "\<not> is_digit CHR '':''"
  by (simp add: is_digit_def digit_chars_def)

lemma colon_notin_string_of_nat: "CHR '':'' \<notin> set (string_of_nat n)"
  using string_of_nat_digits [of n] colon_not_digit by blast

lemma POSTS_CACHE_KEYS_list_version:
  assumes "POSTS_CACHE_KEYS_list v lim cur tg = POSTS_CACHE_KEYS_list v' lim' cur' tg'"
  shows "v = v'"
proof -
  from assms have
    "string_of_nat v @ CHR '':'' # (string_of_nat lim @ '':'' @ string_of_nat cur @ '':'' @ tg)
     = string_of_nat v' @ CHR '':'' # (string_of_nat lim' @ '':'' @ string_of_nat cur' @ '':'' @ tg')"
    by (simp add: POSTS_CACHE_KEYS_list_def)
  then have "string_of_nat v = string_of_nat v'"
    by (rule append_sep_eq) (rule colon_notin_string_of_nat)+
  then show ?thesis by (rule string_of_nat_inj)
qed

lemma getVersion_after_bump:
  "fst (CacheService_getVersion (CacheService_bumpVersion c ns) ns)
     = fst (CacheService_getVersion c ns) + 1"
  by (simp add: CacheService_getVersion_def CacheService_bumpVersion_def split: option.splits)

lemma CacheService_get_other_key:
  "k \<noteq> k' \<Longrightarrow>
   fst (CacheService_get (c\<lparr>KV := (KV c)(k' := x)\<rparr>) k decode encode fetcher)
     = fst (CacheService_get c k decode encode fetcher)"
  by (simp add: CacheService_get_def Let_def split: option.splits)


text \<open>
  What \<open>getVersion\<close> and \<open>bumpVersion\<close> leave alone, and \<open>getPostsCursor\<close> as one
  call of \<open>CacheService.get\<close> on the list key of the version \<open>getVersion\<close> returns.
\<close>

lemma getVersion_frame:
  "KV (snd (CacheService_getVersion c ns)) = KV c"
  "db (snd (CacheService_getVersion c ns)) = db c"
  "versions (snd (CacheService_getVersion c ns)) ns = Some (fst (CacheService_getVersion c ns))"
  by (simp_all add: CacheService_getVersion_def split: option.splits)

lemma bumpVersion_frame:
  "KV (CacheService_bumpVersion c ns) = KV c"
  "db (CacheService_bumpVersion c ns) = db c"
  "versions (CacheService_bumpVersion c ns) ns = Some (fst (CacheService_getVersion c ns) + 1)"
  by (simp_all add: CacheService_bumpVersion_def CacheService_getVersion_def split: option.splits)

lemma getVersion_known:
  "versions c ns = Some v \<Longrightarrow> CacheService_getVersion c ns = (v, c)"
  by (simp add: CacheService_getVersion_def)

lemma getPostsCursor_unfold:
  "getPostsCursor like paginate decode encode now c d =
     CacheService_get (snd (CacheService_getVersion c ''posts:list''))
       (POSTS_CACHE_KEYS_list (fst (CacheService_getVersion c ''posts:list''))
          (case in_limit d of None \<Rightarrow> 10 | Some l \<Rightarrow> l)
          (case in_cursor d of None \<Rightarrow> 0 | Some cu \<Rightarrow> cu)
          (case in_tagName d of None \<Rightarrow> ''all'' | Some tg \<Rightarrow> tg))
       decode encode
       (\<lambda>u. PostRepo_getPostsCursor like paginate now (db c)
              \<lparr>c_cursor = in_cursor d, c_limit = in_limit d,
               c_publicOnly = Some True, c_tagName = in_tagName d\<rparr>)"
  by (simp add: getPostsCursor_def Let_def case_prod_beta)

lemma CacheService_get_hit:
  "KV c k = Some raw \<Longrightarrow> decode raw = Some e \<Longrightarrow>
   CacheService_get c k decode encode fetcher = (e, c)"
  by (simp add: CacheService_get_def)

lemma CacheService_get_miss:
  "\<forall>raw. KV c k = Some raw \<longrightarrow> decode raw = None \<Longrightarrow>
   CacheService_get c k decode encode fetcher
     = (fetcher (), c\<lparr>KV := (KV c)(k \<mapsto> encode (fetcher ()))\<rparr>)"
  by (cases "KV c k") (simp_all add: CacheService_get_def Let_def)

lemma KV_CacheService_get:
  "k' \<noteq> k \<Longrightarrow> KV (snd (CacheService_get c k decode encode fetcher)) k' = KV c k'"
  by (simp add: CacheService_get_def Let_def split: option.splits)

lemma versions_CacheService_get:
  "versions (snd (CacheService_get c k decode encode fetcher)) = versions c"
  by (simp add: CacheService_get_def Let_def split: option.splits)

lemma KV_getPostsCursor_other:
  assumes "k' \<noteq> POSTS_CACHE_KEYS_list (fst (CacheService_getVersion c ''posts:list''))
          (case in_limit d of None \<Rightarrow> 10 | Some l \<Rightarrow> l)
          (case in_cursor d of None \<Rightarrow> 0 | Some cu \<Rightarrow> cu)
          (case in_tagName d of None \<Rightarrow> ''all'' | Some tg \<Rightarrow> tg)"
  shows "KV (snd (getPostsCursor like paginate decode encode now c d)) k' = KV c k'"
  unfolding getPostsCursor_unfold
  by (simp add: KV_CacheService_get [OF assms] getVersion_frame)

lemma versions_getPostsCursor:
  "versions (snd (getPostsCursor like paginate decode encode now c d)) ''posts:list''
     = Some (fst (CacheService_getVersion c ''posts:list''))"
  unfolding getPostsCursor_unfold
  by (simp add: versions_CacheService_get getVersion_frame)

text \<open>
  Claim C9.  After \<open>bumpVersion\<close> of a namespace, \<open>getVersion\<close> of that namespace
  returns one more than it returned before.  A list key built from the version after
  the bump differs from every list key built from the version before it, whatever
  limit, cursor and tag either carries.  What \<open>getPostsCursor\<close> returns after a bump
  of \<open>posts:list\<close> does not depend on what is stored under a key of the old version:
  with any entry or none there (\<open>x\<close>), the result is the same.

  \<open>getPostsCursor\<close> reads and writes the key built from the current version \<open>v\<close> of
  \<open>posts:list\<close> and the limit, cursor and tag of the request (\<open>key v d\<close>): an entry
  stored there that decodes is what it returns; with no such entry it returns the page
  of the public listing of the table (\<open>page (db c) d\<close>) and stores that page under that
  key.  So the page one listing stored is orphaned by a bump: when the table changes
  to \<open>rows'\<close> and \<open>posts:list\<close> is bumped, the next listing, for any request \<open>d'\<close> with
  no decodable entry under its key of version \<open>v + 1\<close>, returns the page of \<open>rows'\<close>
  and not the page stored before the bump.
\<close>

theorem bumpVersion_orphans_old_keys:
  fixes c :: ctx and d d' :: GetPostsCursorInput
    and like :: "string \<Rightarrow> string \<Rightarrow> bool"
    and paginate :: "nat option \<Rightarrow> nat option \<Rightarrow> post list \<Rightarrow> list_response"
    and now :: int
  defines "key \<equiv> (\<lambda>ver q. POSTS_CACHE_KEYS_list ver
                      (case in_limit q of None \<Rightarrow> 10 | Some l \<Rightarrow> l)
                      (case in_cursor q of None \<Rightarrow> 0 | Some cu \<Rightarrow> cu)
                      (case in_tagName q of None \<Rightarrow> ''all'' | Some tg \<Rightarrow> tg))"
      and "page \<equiv> (\<lambda>rows q. PostRepo_getPostsCursor like paginate now rows
                      \<lparr>c_cursor = in_cursor q, c_limit = in_limit q,
                       c_publicOnly = Some True, c_tagName = in_tagName q\<rparr>)"
      and "v \<equiv> fst (CacheService_getVersion c ''posts:list'')"
  shows "fst (CacheService_getVersion (CacheService_bumpVersion c ns) ns)
           = fst (CacheService_getVersion c ns) + 1
   \<and> POSTS_CACHE_KEYS_list (fst (CacheService_getVersion (CacheService_bumpVersion c ns) ns)) lim cur tg
       \<noteq> POSTS_CACHE_KEYS_list (fst (CacheService_getVersion c ns)) lim' cur' tg'
   \<and> fst (getPostsCursor like paginate decode encode now
            ((CacheService_bumpVersion c ''posts:list'')
               \<lparr>KV := (KV (CacheService_bumpVersion c ''posts:list''))
                  (POSTS_CACHE_KEYS_list v lim' cur' tg' := x)\<rparr>) d)
       = fst (getPostsCursor like paginate decode encode now
            (CacheService_bumpVersion c ''posts:list'') d)
   \<and> (\<forall>raw e. KV c (key v d) = Some raw \<and> decode raw = Some e \<longrightarrow>
          fst (getPostsCursor like paginate decode encode now c d) = e)
   \<and> ((\<forall>raw. KV c (key v d) = Some raw \<longrightarrow> decode raw = None) \<longrightarrow>
          fst (getPostsCursor like paginate decode encode now c d) = page (db c) d
          \<and> KV (snd (getPostsCursor like paginate decode encode now c d))
              = (KV c)(key v d \<mapsto> encode (page (db c) d)))
   \<and> ((\<forall>raw. KV c (key (v + 1) d') = Some raw \<longrightarrow> decode raw = None) \<longrightarrow>
          fst (getPostsCursor like paginate decode encode now
                 (CacheService_bumpVersion
                    ((snd (getPostsCursor like paginate decode encode now c d))\<lparr>db := rows'\<rparr>)
                    ''posts:list'') d')
            = page rows' d')"
proof -
  let ?get = "getPostsCursor like paginate decode encode now"
  have keys: "POSTS_CACHE_KEYS_list (w + 1) l1 c1 t1 \<noteq> POSTS_CACHE_KEYS_list w l2 c2 t2"
    for w l1 c1 t1 l2 c2 t2
    using POSTS_CACHE_KEYS_list_version [of "w + 1" l1 c1 t1 w l2 c2 t2] by auto
  have one: "fst (CacheService_getVersion (CacheService_bumpVersion c ns) ns)
           = fst (CacheService_getVersion c ns) + 1"
    by (rule getVersion_after_bump)
  have two: "POSTS_CACHE_KEYS_list (fst (CacheService_getVersion (CacheService_bumpVersion c ns) ns)) lim cur tg
       \<noteq> POSTS_CACHE_KEYS_list (fst (CacheService_getVersion c ns)) lim' cur' tg'"
    unfolding one by (rule keys)
  let ?b = "CacheService_bumpVersion c ''posts:list''"
  have vb: "versions ?b ''posts:list'' = Some (v + 1)"
    unfolding v_def by (rule bumpVersion_frame)
  have three: "fst (?get (?b\<lparr>KV := (KV ?b)(POSTS_CACHE_KEYS_list v lim' cur' tg' := x)\<rparr>) d)
       = fst (?get ?b d)"
  proof -
    have g1: "CacheService_getVersion (?b\<lparr>KV := kv\<rparr>) ''posts:list'' = (v + 1, ?b\<lparr>KV := kv\<rparr>)" for kv
      using vb by (simp add: CacheService_getVersion_def)
    have g0: "CacheService_getVersion ?b ''posts:list'' = (v + 1, ?b)"
      using vb by (rule getVersion_known)
    show ?thesis
      unfolding getPostsCursor_unfold g1 g0 fst_conv snd_conv
      using keys [of v] by (simp add: CacheService_get_other_key)
  qed
  have four: "fst (?get c d) = e" if "KV c (key v d) = Some raw" "decode raw = Some e" for raw e
  proof -
    from that(1) have "KV (snd (CacheService_getVersion c ''posts:list'')) (key v d) = Some raw"
      by (simp add: getVersion_frame)
    from CacheService_get_hit [where decode = decode, OF this that(2)] show ?thesis
      unfolding getPostsCursor_unfold key_def v_def by simp
  qed
  have five: "fst (?get c d) = page (db c) d
      \<and> KV (snd (?get c d)) = (KV c)(key v d \<mapsto> encode (page (db c) d))"
    if "\<forall>raw. KV c (key v d) = Some raw \<longrightarrow> decode raw = None"
  proof -
    from that have "\<forall>raw. KV (snd (CacheService_getVersion c ''posts:list'')) (key v d) = Some raw
        \<longrightarrow> decode raw = None"
      by (simp add: getVersion_frame)
    from CacheService_get_miss [where decode = decode, OF this] show ?thesis
      unfolding getPostsCursor_unfold key_def v_def page_def
      by (simp add: getVersion_frame)
  qed
  have six: "fst (?get (CacheService_bumpVersion ((snd (?get c d))\<lparr>db := rows'\<rparr>) ''posts:list'') d')
      = page rows' d'"
    if "\<forall>raw. KV c (key (v + 1) d') = Some raw \<longrightarrow> decode raw = None"
  proof -
    let ?c1 = "snd (?get c d)"
    let ?c2 = "CacheService_bumpVersion (?c1\<lparr>db := rows'\<rparr>) ''posts:list''"
    have ne: "key (v + 1) d' \<noteq> key v d"
      unfolding key_def by (rule keys)
    have kv1: "KV ?c1 (key (v + 1) d') = KV c (key (v + 1) d')"
    proof (rule KV_getPostsCursor_other)
      from ne show "key (v + 1) d' \<noteq>
          POSTS_CACHE_KEYS_list (fst (CacheService_getVersion c ''posts:list''))
            (case in_limit d of None \<Rightarrow> 10 | Some l \<Rightarrow> l)
            (case in_cursor d of None \<Rightarrow> 0 | Some cu \<Rightarrow> cu)
            (case in_tagName d of None \<Rightarrow> ''all'' | Some tg \<Rightarrow> tg)"
        by (simp add: key_def v_def)
    qed
    have ver1: "versions ?c1 ''posts:list'' = Some v"
      unfolding v_def by (rule versions_getPostsCursor)
    then have gv1: "fst (CacheService_getVersion (?c1\<lparr>db := rows'\<rparr>) ''posts:list'') = v"
      by (simp add: CacheService_getVersion_def)
    have ver2: "versions ?c2 ''posts:list'' = Some (v + 1)"
      using bumpVersion_frame(3) [of "?c1\<lparr>db := rows'\<rparr>" "''posts:list''"] gv1 by simp
    have g2: "CacheService_getVersion ?c2 ''posts:list'' = (v + 1, ?c2)"
      using ver2 by (rule getVersion_known)
    have kv2: "KV ?c2 = KV ?c1" and db2: "db ?c2 = rows'"
      by (simp_all add: bumpVersion_frame)
    from that kv1 kv2 have "\<forall>raw. KV ?c2 (key (v + 1) d') = Some raw \<longrightarrow> decode raw = None"
      by simp
    from CacheService_get_miss [where decode = decode, OF this]
    show ?thesis
      unfolding getPostsCursor_unfold [of like paginate decode encode now ?c2 d'] g2 fst_conv snd_conv
      by (simp add: key_def page_def db2)
  qed
  from one two three four five six show ?thesis
    by blast
qed

text \<open>
  In the first example the version of \<open>posts:list\<close> is 3 and a stale page is stored
  under the key of version 3.  Before the bump the listing returns the stale page;
  after the bump the version is 4, the key is another one and the listing is fetched.
  In the second example nothing is cached and the version is 1: the listing returns
  the published post and stores the page under the key of version 1; the table is
  then emptied and \<open>posts:list\<close> bumped, and the same request returns the empty page.
\<close>

theorem bumpVersion_orphans_old_keys_witness:
  "fst (CacheService_getVersion example_cached_ctx ''posts:list'') = 3
   \<and> fst (CacheService_getVersion (CacheService_bumpVersion example_cached_ctx ''posts:list'') ''posts:list'') = 4
   \<and> POSTS_CACHE_KEYS_list 3 10 0 ''all'' = ''posts:list:3:10:0:all''
   \<and> POSTS_CACHE_KEYS_list 4 10 0 ''all'' = ''posts:list:4:10:0:all''
   \<and> items (fst (getPostsCursor (\<lambda>pat s. True) example_paginate example_decode (\<lambda>r. ''fresh'') 0
         example_cached_ctx example_input)) = []
   \<and> items (fst (getPostsCursor (\<lambda>pat s. True) example_paginate example_decode (\<lambda>r. ''fresh'') 0
         (CacheService_bumpVersion example_cached_ctx ''posts:list'') example_input))
       = [example_post 1 ''hello'']
   \<and> items (fst (getPostsCursor (\<lambda>pat s. True) example_paginate example_decode (\<lambda>r. ''page'') 0
         example_ctx example_input))
       = [example_post 1 ''hello'']
   \<and> KV (snd (getPostsCursor (\<lambda>pat s. True) example_paginate example_decode (\<lambda>r. ''page'') 0
         example_ctx example_input)) ''posts:list:1:10:0:all'' = Some ''page''
   \<and> items (fst (getPostsCursor (\<lambda>pat s. True) example_paginate example_decode (\<lambda>r. ''page'') 0
         (CacheService_bumpVersion
            ((snd (getPostsCursor (\<lambda>pat s. True) example_paginate example_decode (\<lambda>r. ''page'') 0
                example_ctx example_input))\<lparr>db := []\<rparr>) ''posts:list'')
         example_input))
       = []"
proof -
  note th = bumpVersion_orphans_old_keys [where like = "\<lambda>pat s. True" and paginate = example_paginate
      and decode = example_decode and now = 0 and d = example_input and d' = example_input]
  have v3: "fst (CacheService_getVersion example_cached_ctx ''posts:list'') = 3"
    by (simp add: CacheService_getVersion_def example_cached_ctx_def)
  from th [where c = example_cached_ctx and ns = "''posts:list''"]
  have v4: "fst (CacheService_getVersion
      (CacheService_bumpVersion example_cached_ctx ''posts:list'') ''posts:list'') = 4"
    by (simp add: v3)
  have k1: "POSTS_CACHE_KEYS_list 1 10 0 ''all'' = ''posts:list:1:10:0:all''"
    by (simp add: POSTS_CACHE_KEYS_list_def string_of_nat.simps digit_chars_def)
  have k2: "POSTS_CACHE_KEYS_list 2 10 0 ''all'' = ''posts:list:2:10:0:all''"
    by (simp add: POSTS_CACHE_KEYS_list_def string_of_nat.simps digit_chars_def)
  have k3: "POSTS_CACHE_KEYS_list 3 10 0 ''all'' = ''posts:list:3:10:0:all''"
    by (simp add: POSTS_CACHE_KEYS_list_def string_of_nat.simps digit_chars_def)
  have k4: "POSTS_CACHE_KEYS_list 4 10 0 ''all'' = ''posts:list:4:10:0:all''"
    by (simp add: POSTS_CACHE_KEYS_list_def string_of_nat.simps digit_chars_def)
  have before: "items (fst (getPostsCursor (\<lambda>pat s. True) example_paginate example_decode
      (\<lambda>r. ''fresh'') 0 example_cached_ctx example_input)) = []"
    by (simp add: getPostsCursor_def CacheService_getVersion_def CacheService_get_def
        example_cached_ctx_def example_input_def example_decode_def k3)
  have after: "items (fst (getPostsCursor (\<lambda>pat s. True) example_paginate example_decode
      (\<lambda>r. ''fresh'') 0 (CacheService_bumpVersion example_cached_ctx ''posts:list'') example_input))
       = [example_post 1 ''hello'']"
    by (simp add: getPostsCursor_def CacheService_getVersion_def CacheService_bumpVersion_def
        CacheService_get_def example_cached_ctx_def example_ctx_def example_input_def
        example_decode_def k4 PostRepo_getPostsCursor_def buildPostWhereClause_def
        getCurrentMinuteEnd_def holds_where_def has_tag_def example_paginate_def example_post_def)
  have v1: "fst (CacheService_getVersion example_ctx ''posts:list'') = 1"
    by (simp add: CacheService_getVersion_def example_ctx_def)
  have kv: "KV example_ctx ''posts:list:1:10:0:all'' = None"
    "KV example_ctx ''posts:list:2:10:0:all'' = None"
    by (simp_all add: example_ctx_def POSTS_CACHE_KEYS_syncHash_def)
  have pg: "PostRepo_getPostsCursor (\<lambda>pat s. True) example_paginate 0 (db example_ctx)
      \<lparr>c_cursor = None, c_limit = None, c_publicOnly = Some True, c_tagName = None\<rparr>
      = \<lparr>items = [example_post 1 ''hello''], nextCursor = None\<rparr>"
    by (simp add: PostRepo_getPostsCursor_def buildPostWhereClause_def getCurrentMinuteEnd_def
        holds_where_def has_tag_def example_paginate_def example_ctx_def example_post_def)
  have pe: "PostRepo_getPostsCursor (\<lambda>pat s. True) example_paginate 0 []
      \<lparr>c_cursor = None, c_limit = None, c_publicOnly = Some True, c_tagName = None\<rparr>
      = \<lparr>items = [], nextCursor = None\<rparr>"
    by (simp add: PostRepo_getPostsCursor_def example_paginate_def)
  from th [where c = example_ctx and encode = "\<lambda>r. ''page''" and rows' = "[]"]
  have first: "items (fst (getPostsCursor (\<lambda>pat s. True) example_paginate example_decode
        (\<lambda>r. ''page'') 0 example_ctx example_input)) = [example_post 1 ''hello'']"
    and stored: "KV (snd (getPostsCursor (\<lambda>pat s. True) example_paginate example_decode
        (\<lambda>r. ''page'') 0 example_ctx example_input)) ''posts:list:1:10:0:all'' = Some ''page''"
    and second: "items (fst (getPostsCursor (\<lambda>pat s. True) example_paginate example_decode
        (\<lambda>r. ''page'') 0
        (CacheService_bumpVersion
           ((snd (getPostsCursor (\<lambda>pat s. True) example_paginate example_decode (\<lambda>r. ''page'') 0
               example_ctx example_input))\<lparr>db := []\<rparr>) ''posts:list'')
        example_input)) = []"
    by (simp_all add: v1 example_input_def k1 k2 k1 [unfolded One_nat_def]
        k2 [unfolded numeral_2_eq_2] kv pg pe)
  from v3 v4 k3 k4 before after first stored second show ?thesis by blast
qed

section \<open>Public visibility\<close>





section \<open>Post-process workflow\<close>

lemma calls_try_terminate:
  "calls (snd (try_terminate c sid))
     = calls c @ [ScheduledGet sid] @ (if scheduled c sid = None then [] else [ScheduledTerminate sid])"
  by (simp add: try_terminate_def Let_def split: option.splits)

lemma scheduled_try_terminate:
  "scheduled (snd (try_terminate c sid))
     = (if scheduled c sid = Some Active then (scheduled c)(sid \<mapsto> Terminated) else scheduled c)"
  by (auto simp: try_terminate_def Let_def split: option.splits)

lemma db_try_terminate: "db (snd (try_terminate c sid)) = db c"
  by (simp add: try_terminate_def Let_def split: option.splits)

lemma apply_patch_publishedAt:
  "apply_patch (empty_patch\<lparr>patch_publishedAt := Some (Some now)\<rparr>) p = p\<lparr>publishedAt := Some now\<rparr>"
  by (simp add: apply_patch_def empty_patch_def)

lemma start_none:
  assumes "effective_publishedAt clk (db c) d = None"
  shows "startPostProcessWorkflow toISOString Date_parse clk c d =
    snd (try_terminate
      (c\<lparr>calls := calls c @
         [PostProcessCreate \<lparr>pp_postId = sp_id d, pp_isPublished = (sp_status d = ''published''),
            pp_publishedAt = None, pp_isFuturePost = False\<rparr>]\<rparr>)
      (''post-'' @ string_of_nat (sp_id d) @ ''-scheduled''))"
proof (cases "sp_status d = ''published''")
  case False
  then show ?thesis
    by (simp add: startPostProcessWorkflow_def Let_def)
next
  case True
  with assms have "PostRepo_findPostById (db c) (sp_id d) = None"
    by (simp add: effective_publishedAt_def split: option.splits)
  with True show ?thesis
    by (simp add: startPostProcessWorkflow_def Let_def)
qed

lemma effective_publishedAt_Some:
  assumes "effective_publishedAt clk rows d = Some t"
  shows "sp_status d = ''published''
         \<and> (\<exists>p. PostRepo_findPostById rows (sp_id d) = Some p
                \<and> t = (case publishedAt p of
                         None \<Rightarrow> getCurrentMinuteEnd (t_stamp clk) | Some t' \<Rightarrow> t'))"
  using assms
  by (auto simp: effective_publishedAt_def split: if_splits option.splits)

lemma start_some:
  assumes "sp_status d = ''published''"
      and "PostRepo_findPostById (db c) (sp_id d) = Some p"
      and "t = (case publishedAt p of None \<Rightarrow> getCurrentMinuteEnd (t_stamp clk) | Some t' \<Rightarrow> t')"
      and "Date_parse (toISOString t) = Some t" and "toISOString t \<noteq> []"
  shows "startPostProcessWorkflow toISOString Date_parse clk c d =
    (let c1 = (if publishedAt p = None
               then c\<lparr>db := fst (PostRepo_updatePost (db c) (sp_id d)
                              (empty_patch\<lparr>patch_publishedAt := Some (Some t)\<rparr>)),
                      calls := calls c @ [RepoUpdatePublishedAt (sp_id d) t]\<rparr>
               else c);
         c3 = snd (try_terminate
               (c1\<lparr>calls := calls c1 @
                  [PostProcessCreate \<lparr>pp_postId = sp_id d, pp_isPublished = True,
                     pp_publishedAt = Some (toISOString t), pp_isFuturePost = (t_check clk < t)\<rparr>]\<rparr>)
               (''post-'' @ string_of_nat (sp_id d) @ ''-scheduled''))
     in if t_schedule clk < t
        then c3\<lparr>scheduled := (scheduled c3)(''post-'' @ string_of_nat (sp_id d) @ ''-scheduled'' \<mapsto> Active),
                calls := calls c3 @ [ScheduledCreate (''post-'' @ string_of_nat (sp_id d) @ ''-scheduled'')
                                      (sp_id d) (toISOString t)]\<rparr>
        else c3)"
proof -
  from assms(2) have i: "post_id p = sp_id d"
    by (simp add: PostRepo_findPostById_id)
  show ?thesis
  proof (cases "publishedAt p")
    case None
    with assms(3) have t: "getCurrentMinuteEnd (t_stamp clk) = t"
      by simp
    from None assms(1,2,4,5) i show ?thesis
      by (simp add: startPostProcessWorkflow_def Let_def t isFuturePublishDate_def)
  next
    case (Some t')
    with assms(3) have t: "t' = t"
      by simp
    from Some assms(1,2,4,5) i show ?thesis
      by (simp add: startPostProcessWorkflow_def Let_def t isFuturePublishDate_def)
  qed
qed

lemma filter_scheduled_simps:
  "is_scheduled_call (ScheduledGet a)" "is_scheduled_call (ScheduledTerminate a)"
  "is_scheduled_call (ScheduledCreate a i b)" "\<not> is_scheduled_call (PostProcessCreate q)"
  "\<not> is_scheduled_call (RepoUpdatePublishedAt i t)"
  by (simp_all add: is_scheduled_call_def)

text \<open>
  Claim C6.  Every invocation looks the instance \<open>post-<id>-scheduled\<close> up and, when
  it exists, terminates it; whether the lookup fails (no such instance), the
  termination fails (the instance is not active any more) or both succeed, the
  invocation goes on and returns.  After that it creates an instance under the same id
  exactly when the requested status is \<open>published\<close> and the effective publish time is
  later than the clock reading taken then.  No other scheduled instance is touched.
  \<open>Date_parse\<close> is assumed to read back what \<open>toISOString\<close> printed for that time.
\<close>

theorem startPostProcessWorkflow_reschedule:
  assumes "\<forall>t. effective_publishedAt clk (db c) d = Some t \<longrightarrow>
             Date_parse (toISOString t) = Some t \<and> toISOString t \<noteq> []"
  shows "filter is_scheduled_call
           (drop (length (calls c)) (calls (startPostProcessWorkflow toISOString Date_parse clk c d)))
         = [ScheduledGet (''post-'' @ string_of_nat (sp_id d) @ ''-scheduled'')]
           @ (if scheduled c (''post-'' @ string_of_nat (sp_id d) @ ''-scheduled'') = None then []
              else [ScheduledTerminate (''post-'' @ string_of_nat (sp_id d) @ ''-scheduled'')])
           @ (case effective_publishedAt clk (db c) d of
                None \<Rightarrow> []
              | Some t \<Rightarrow>
                  if sp_status d = ''published'' \<and> t_schedule clk < t
                  then [ScheduledCreate (''post-'' @ string_of_nat (sp_id d) @ ''-scheduled'')
                          (sp_id d) (toISOString t)]
                  else [])
       \<and> scheduled (startPostProcessWorkflow toISOString Date_parse clk c d)
            (''post-'' @ string_of_nat (sp_id d) @ ''-scheduled'')
         = (if sp_status d = ''published''
               \<and> (case effective_publishedAt clk (db c) d of
                     None \<Rightarrow> False | Some t \<Rightarrow> t_schedule clk < t)
            then Some Active
            else (case scheduled c (''post-'' @ string_of_nat (sp_id d) @ ''-scheduled'') of
                    None \<Rightarrow> None
                  | Some st \<Rightarrow> Some (if st = Active then Terminated else st)))
       \<and> (\<forall>k. k \<noteq> ''post-'' @ string_of_nat (sp_id d) @ ''-scheduled'' \<longrightarrow>
             scheduled (startPostProcessWorkflow toISOString Date_parse clk c d) k = scheduled c k)"
proof (cases "effective_publishedAt clk (db c) d")
  case None
  show ?thesis
    unfolding start_none [OF None] None
    by (simp add: calls_try_terminate scheduled_try_terminate filter_scheduled_simps
        split: option.splits)
next
  case (Some t)
  with assms have rt: "Date_parse (toISOString t) = Some t" "toISOString t \<noteq> []"
    by auto
  from effective_publishedAt_Some [OF Some] obtain p where
    pub: "sp_status d = ''published''" and
    p: "PostRepo_findPostById (db c) (sp_id d) = Some p" and
    t: "t = (case publishedAt p of None \<Rightarrow> getCurrentMinuteEnd (t_stamp clk) | Some t' \<Rightarrow> t')"
    by blast
  note eq = start_some [where Date_parse = Date_parse and toISOString = toISOString, OF pub p t rt]
  show ?thesis
    unfolding eq Some
    by (simp add: pub Let_def calls_try_terminate scheduled_try_terminate filter_scheduled_simps
        split: option.splits)
qed


text \<open>
  Claim C7.  On a request to publish an existing post without a publish time, the
  post is stamped with the end of the current minute by a repository update that comes
  before the post-process workflow is created, and the workflow is given that time.  A
  post that has a publish time keeps it: the table is unchanged and the workflow is
  given the stored time.  In both cases the future flag says whether the effective time
  is later than the clock reading; a timestamp that does not parse is never in the
  future.
\<close>

theorem startPostProcessWorkflow_stamp:
  assumes "sp_status d = ''published''"
      and "PostRepo_findPostById (db c) (sp_id d) = Some p"
      and "\<forall>t. effective_publishedAt clk (db c) d = Some t \<longrightarrow>
             Date_parse (toISOString t) = Some t \<and> toISOString t \<noteq> []"
  shows "(publishedAt p = None \<longrightarrow>
            PostRepo_findPostById (db (startPostProcessWorkflow toISOString Date_parse clk c d)) (sp_id d)
              = Some (p\<lparr>publishedAt := Some (getCurrentMinuteEnd (t_stamp clk))\<rparr>)
            \<and> take 2 (drop (length (calls c))
                 (calls (startPostProcessWorkflow toISOString Date_parse clk c d)))
              = [RepoUpdatePublishedAt (sp_id d) (getCurrentMinuteEnd (t_stamp clk)),
                 PostProcessCreate
                   \<lparr>pp_postId = sp_id d, pp_isPublished = True,
                    pp_publishedAt = Some (toISOString (getCurrentMinuteEnd (t_stamp clk))),
                    pp_isFuturePost = (t_check clk < getCurrentMinuteEnd (t_stamp clk))\<rparr>])
       \<and> (\<forall>t. publishedAt p = Some t \<longrightarrow>
            db (startPostProcessWorkflow toISOString Date_parse clk c d) = db c
            \<and> take 1 (drop (length (calls c))
                 (calls (startPostProcessWorkflow toISOString Date_parse clk c d)))
              = [PostProcessCreate
                   \<lparr>pp_postId = sp_id d, pp_isPublished = True,
                    pp_publishedAt = Some (toISOString t),
                    pp_isFuturePost = (t_check clk < t)\<rparr>])
       \<and> (Date_parse s = None \<longrightarrow> \<not> isFuturePublishDate Date_parse now s ct)"
proof -
  let ?t = "case publishedAt p of None \<Rightarrow> getCurrentMinuteEnd (t_stamp clk) | Some t' \<Rightarrow> t'"
  from assms(1,2) have eff: "effective_publishedAt clk (db c) d = Some ?t"
    by (simp add: effective_publishedAt_def split: option.splits)
  with assms(3) have rt: "Date_parse (toISOString ?t) = Some ?t" "toISOString ?t \<noteq> []"
    by blast+
  note eq = start_some [where Date_parse = Date_parse and toISOString = toISOString,
      OF assms(1,2) refl rt]
  from assms(2) have f: "find (\<lambda>q. post_id q = sp_id d) (db c) = Some p"
    by (simp add: PostRepo_findPostById_def)
  have upd: "PostRepo_findPostById
      (fst (PostRepo_updatePost (db c) (sp_id d) (empty_patch\<lparr>patch_publishedAt := Some (Some x)\<rparr>)))
      (sp_id d) = Some (p\<lparr>publishedAt := Some x\<rparr>)" for x
    using find_map_patch [OF f, of "empty_patch\<lparr>patch_publishedAt := Some (Some x)\<rparr>"]
    by (simp add: PostRepo_updatePost_found [OF assms(2)] PostRepo_findPostById_def
        apply_patch_publishedAt)
  have a: "publishedAt p = None \<Longrightarrow>
      PostRepo_findPostById (db (startPostProcessWorkflow toISOString Date_parse clk c d)) (sp_id d)
        = Some (p\<lparr>publishedAt := Some (getCurrentMinuteEnd (t_stamp clk))\<rparr>)
      \<and> take 2 (drop (length (calls c))
           (calls (startPostProcessWorkflow toISOString Date_parse clk c d)))
        = [RepoUpdatePublishedAt (sp_id d) (getCurrentMinuteEnd (t_stamp clk)),
           PostProcessCreate
             \<lparr>pp_postId = sp_id d, pp_isPublished = True,
              pp_publishedAt = Some (toISOString (getCurrentMinuteEnd (t_stamp clk))),
              pp_isFuturePost = (t_check clk < getCurrentMinuteEnd (t_stamp clk))\<rparr>]"
    unfolding eq
    by (simp add: Let_def calls_try_terminate db_try_terminate upd)
  have b: "publishedAt p = Some t \<Longrightarrow>
      db (startPostProcessWorkflow toISOString Date_parse clk c d) = db c
      \<and> take 1 (drop (length (calls c))
           (calls (startPostProcessWorkflow toISOString Date_parse clk c d)))
        = [PostProcessCreate
             \<lparr>pp_postId = sp_id d, pp_isPublished = True,
              pp_publishedAt = Some (toISOString t),
              pp_isFuturePost = (t_check clk < t)\<rparr>]" for t
    unfolding eq
    by (simp add: Let_def calls_try_terminate db_try_terminate)
  have u: "Date_parse s = None \<Longrightarrow> \<not> isFuturePublishDate Date_parse now s ct"
    by (simp add: isFuturePublishDate_def)
  from a b u show ?thesis by blast
qed

lemma example_roundtrip:
  "t \<in> {0, 59999, 60000} \<Longrightarrow>
   example_Date_parse (example_toISOString t) = Some t \<and> example_toISOString t \<noteq> []"
  by (auto simp: example_Date_parse_def example_toISOString_def)

lemma example_effective:
  "effective_publishedAt example_clock (db example_wctx) (example_publish 4) = Some 60000"
  "effective_publishedAt example_clock (db example_wctx) (example_publish 1) = Some 0"
  "effective_publishedAt example_clock (db example_wctx) (example_publish 5) = Some 59999"
  by (simp_all add: effective_publishedAt_def example_publish_def example_wctx_def
      example_rows_def example_post_def PostRepo_findPostById_def example_clock_def
      getCurrentMinuteEnd_def)

lemma example_scheduled_ids:
  "''post-'' @ string_of_nat (sp_id (example_publish 4)) @ ''-scheduled'' = ''post-4-scheduled''"
  "''post-'' @ string_of_nat (sp_id (example_publish 1)) @ ''-scheduled'' = ''post-1-scheduled''"
  "''post-'' @ string_of_nat (sp_id (example_publish 5)) @ ''-scheduled'' = ''post-5-scheduled''"
  by (simp_all add: example_publish_def string_of_nat.simps digit_chars_def)

lemma example_toISOString_values:
  "example_toISOString 60000 = ''1970-01-01T00:01:00.000Z''"
  "example_toISOString 59999 = ''1970-01-01T00:00:59.999Z''"
  "example_toISOString 0 = ''1970-01-01T00:00:00.000Z''"
  by (simp_all add: example_toISOString_def)

text \<open>
  The clock reads half a minute past the epoch.  Post 4 is dated 60000 and an instance
  for it has completed: the termination fails, and the new instance is created.  Post 1
  is dated 0 and has no instance: the lookup fails, and nothing is created.
\<close>

theorem startPostProcessWorkflow_reschedule_witness:
  "fst (try_terminate example_wctx ''post-4-scheduled'') = Some Instance_not_active
   \<and> filter is_scheduled_call
       (calls (startPostProcessWorkflow example_toISOString example_Date_parse example_clock
          example_wctx (example_publish 4)))
     = [ScheduledGet ''post-4-scheduled'', ScheduledTerminate ''post-4-scheduled'',
        ScheduledCreate ''post-4-scheduled'' 4 ''1970-01-01T00:01:00.000Z'']
   \<and> fst (try_terminate example_wctx ''post-1-scheduled'') = Some Instance_not_found
   \<and> filter is_scheduled_call
       (calls (startPostProcessWorkflow example_toISOString example_Date_parse example_clock
          example_wctx (example_publish 1)))
     = [ScheduledGet ''post-1-scheduled'']"
proof -
  have r4: "\<forall>t. effective_publishedAt example_clock (db example_wctx) (example_publish 4) = Some t
      \<longrightarrow> example_Date_parse (example_toISOString t) = Some t \<and> example_toISOString t \<noteq> []"
    using example_roundtrip by (simp add: example_effective)
  have r1: "\<forall>t. effective_publishedAt example_clock (db example_wctx) (example_publish 1) = Some t
      \<longrightarrow> example_Date_parse (example_toISOString t) = Some t \<and> example_toISOString t \<noteq> []"
    using example_roundtrip by (simp add: example_effective [unfolded One_nat_def])
  have f4: "fst (try_terminate example_wctx ''post-4-scheduled'') = Some Instance_not_active"
    by (simp add: try_terminate_def example_wctx_def)
  have f1: "fst (try_terminate example_wctx ''post-1-scheduled'') = Some Instance_not_found"
    by (simp add: try_terminate_def example_wctx_def)
  have s: "scheduled example_wctx ''post-4-scheduled'' = Some Completed"
    "scheduled example_wctx ''post-1-scheduled'' = None" "calls example_wctx = []"
    by (simp_all add: example_wctx_def)
  have i: "sp_id (example_publish n) = n" "sp_status (example_publish n) = ''published''" for n
    by (simp_all add: example_publish_def)
  have c: "t_schedule example_clock = 30002"
    by (simp add: example_clock_def)
  from startPostProcessWorkflow_reschedule [OF r4, unfolded example_scheduled_ids example_effective]
  have a: "filter is_scheduled_call
       (calls (startPostProcessWorkflow example_toISOString example_Date_parse example_clock
          example_wctx (example_publish 4)))
     = [ScheduledGet ''post-4-scheduled'', ScheduledTerminate ''post-4-scheduled'',
        ScheduledCreate ''post-4-scheduled'' 4 ''1970-01-01T00:01:00.000Z'']"
    by (simp add: i s c example_toISOString_values)
  from startPostProcessWorkflow_reschedule [OF r1, unfolded example_scheduled_ids example_effective]
  have b: "filter is_scheduled_call
       (calls (startPostProcessWorkflow example_toISOString example_Date_parse example_clock
          example_wctx (example_publish 1)))
     = [ScheduledGet ''post-1-scheduled'']"
    by (simp add: i s c example_toISOString_values)
  from f4 a f1 b show ?thesis by blast
qed

text \<open>
  Post 5 has no publish time: it is stamped 59999, the end of the minute, which is
  later than the clock reading 30001, so the workflow is told the post is a future one.
\<close>

theorem startPostProcessWorkflow_stamp_witness:
  "PostRepo_findPostById (db example_wctx) 5 = Some ((example_post 5 ''undated'')\<lparr>publishedAt := None\<rparr>)
   \<and> getCurrentMinuteEnd (t_stamp example_clock) = 59999
   \<and> PostRepo_findPostById
        (db (startPostProcessWorkflow example_toISOString example_Date_parse example_clock
               example_wctx (example_publish 5))) 5
      = Some ((example_post 5 ''undated'')\<lparr>publishedAt := Some 59999\<rparr>)
   \<and> take 2 (calls (startPostProcessWorkflow example_toISOString example_Date_parse example_clock
                example_wctx (example_publish 5)))
      = [RepoUpdatePublishedAt 5 59999,
         PostProcessCreate
           \<lparr>pp_postId = 5, pp_isPublished = True,
            pp_publishedAt = Some ''1970-01-01T00:00:59.999Z'', pp_isFuturePost = True\<rparr>]
   \<and> \<not> isFuturePublishDate example_Date_parse 0 ''tomorrow'' None"
proof -
  have pub: "sp_status (example_publish 5) = ''published''"
    by (simp add: example_publish_def)
  have i: "sp_id (example_publish 5) = 5"
    by (simp add: example_publish_def)
  have p: "PostRepo_findPostById (db example_wctx) (sp_id (example_publish 5))
      = Some ((example_post 5 ''undated'')\<lparr>publishedAt := None\<rparr>)"
    by (simp add: PostRepo_findPostById_def example_wctx_def example_rows_def example_post_def i)
  have r5: "\<forall>t. effective_publishedAt example_clock (db example_wctx) (example_publish 5) = Some t
      \<longrightarrow> example_Date_parse (example_toISOString t) = Some t \<and> example_toISOString t \<noteq> []"
    using example_roundtrip by (simp add: example_effective)
  have e: "getCurrentMinuteEnd (t_stamp example_clock) = 59999"
    by (simp add: getCurrentMinuteEnd_def example_clock_def)
  have c: "calls example_wctx = []" "t_check example_clock = 30001"
    by (simp_all add: example_wctx_def example_clock_def)
  have u: "example_Date_parse ''tomorrow'' = None"
    by (simp add: example_Date_parse_def)
  have n: "publishedAt ((example_post 5 ''undated'')\<lparr>publishedAt := None\<rparr>) = None"
    by simp
  from startPostProcessWorkflow_stamp [OF pub p r5, of "''tomorrow''" 0 None, unfolded i e]
  show ?thesis
    using p e by (simp add: i c u example_toISOString_values)
qed

section \<open>Slug generation\<close>

lemma match_numbered_iff:
  "match_numbered baseSlug s = Some ds \<longleftrightarrow>
     s = baseSlug @ ''-'' @ ds \<and> ds \<noteq> [] \<and> list_all is_digit ds"
proof
  assume "match_numbered baseSlug s = Some ds"
  then have t: "take (length (baseSlug @ ''-'')) s = baseSlug @ ''-''"
    and d: "drop (length (baseSlug @ ''-'')) s = ds"
    and n: "ds \<noteq> []" and a: "list_all is_digit ds"
    by (auto simp: match_numbered_def Let_def split: if_splits)
  have "s = take (length (baseSlug @ ''-'')) s @ drop (length (baseSlug @ ''-'')) s"
    by simp
  with t d have "s = baseSlug @ ''-'' @ ds"
    by simp
  with n a show "s = baseSlug @ ''-'' @ ds \<and> ds \<noteq> [] \<and> list_all is_digit ds"
    by simp
next
  assume "s = baseSlug @ ''-'' @ ds \<and> ds \<noteq> [] \<and> list_all is_digit ds"
  then show "match_numbered baseSlug s = Some ds"
    by (simp add: match_numbered_def Let_def)
qed

lemma round_double_safe: "n \<le> 2 ^ 53 \<Longrightarrow> round_double n = Finite n"
proof (cases "n < 2 ^ 53")
  case True
  then show ?thesis by (simp add: round_double_def)
next
  case False
  assume "n \<le> 2 ^ 53"
  with False have n: "n = 9007199254740992" by simp
  have b: "bit_length 9007199254740992 = 54"
    by (simp add: bit_length.simps)
  show ?thesis
    unfolding n round_double_def Let_def b
    by simp
qed

lemma plus_one_safe: "m < 2 ^ 53 \<Longrightarrow> plus_one (Finite m) = Finite (m + 1)"
  by (simp add: round_double_safe)

lemma Number_toString_safe: "n \<le> 2 ^ 53 \<Longrightarrow> Number_toString (Finite n) = string_of_nat n"
  by (simp add: Number_toString_def)

lemma Max_insert_max:
  fixes m v :: nat
  assumes "finite A"
  shows "Max (insert m (insert v A)) = Max (insert (max m v) A)"
proof (cases "A = {}")
  case True
  then show ?thesis by simp
next
  case False
  with assms show ?thesis
    by (simp add: max.assoc)
qed

lemma fold_maxSuffix:
  assumes "m < 2 ^ 53"
      and "\<forall>s \<in> set xs. \<forall>ds. match_numbered b s = Some ds \<longrightarrow> nat_of_digits ds < 2 ^ 53"
  shows "foldl (\<lambda>maxSuffix s.
                  case map_option parseInt (match_numbered b s) of
                    None \<Rightarrow> maxSuffix
                  | Some number \<Rightarrow>
                      if number_gt number maxSuffix then number else maxSuffix)
           (Finite m) xs
         = Finite (Max (insert m {nat_of_digits ds | ds s. s \<in> set xs \<and> match_numbered b s = Some ds}))"
proof -
  define F where "F = (\<lambda>maxSuffix s.
                  case map_option parseInt (match_numbered b s) of
                    None \<Rightarrow> maxSuffix
                  | Some number \<Rightarrow>
                      if number_gt number maxSuffix then number else maxSuffix)"
  let ?V = "\<lambda>ys. {nat_of_digits ds | ds s. s \<in> set ys \<and> match_numbered b s = Some ds}"
  have fin: "finite (?V ys)" for ys
  proof -
    have "?V ys \<subseteq> (\<lambda>s. nat_of_digits (the (match_numbered b s))) ` set ys"
      by force
    then show ?thesis
      by (rule finite_subset) simp
  qed
  have "foldl F (Finite m) xs = Finite (Max (insert m (?V xs)))"
    using assms
  proof (induction xs arbitrary: m)
    case Nil
    then show ?case by simp
  next
    case (Cons x xs)
    from Cons.prems have rest:
      "\<forall>s \<in> set xs. \<forall>ds. match_numbered b s = Some ds \<longrightarrow> nat_of_digits ds < 2 ^ 53"
      by simp
    show ?case
    proof (cases "match_numbered b x")
      case None
      then have V: "?V (x # xs) = ?V xs"
        by auto
      from None have step: "F (Finite m) x = Finite m"
        by (simp add: F_def)
      have "foldl F (Finite m) (x # xs) = foldl F (Finite m) xs"
        by (simp only: foldl_Cons step)
      with Cons.IH [OF Cons.prems(1) rest] show ?thesis
        by (simp only: V)
    next
      case (Some ds)
      then have V: "?V (x # xs) = insert (nat_of_digits ds) (?V xs)"
        by auto
      from Cons.prems Some have v: "nat_of_digits ds < 2 ^ 53"
        by simp
      then have p: "parseInt ds = Finite (nat_of_digits ds)"
        by (simp add: parseInt_def round_double_safe)
      have mx: "max m (nat_of_digits ds) < 2 ^ 53"
        using v Cons.prems(1) by simp
      from Some p have step: "F (Finite m) x = Finite (max m (nat_of_digits ds))"
        by (simp add: F_def max_def)
      have fold: "foldl F (Finite m) (x # xs) = foldl F (Finite (max m (nat_of_digits ds))) xs"
        by (simp only: foldl_Cons step)
      have "Max (insert m (insert (nat_of_digits ds) (?V xs)))
          = Max (insert (max m (nat_of_digits ds)) (?V xs))"
        using fin [of xs] by (rule Max_insert_max)
      with Cons.IH [OF mx rest] fold show ?thesis
        by (simp only: V)
    qed
  qed
  then show ?thesis
    by (simp only: F_def)
qed

lemma similar_suffixes:
  "{nat_of_digits ds | ds s.
       s \<in> set (PostRepo_findSimilarSlugs rows b ex) \<and> match_numbered b s = Some ds}
     = numbered_suffixes rows b ex"
proof -
  have "(\<exists>s. s \<in> set (PostRepo_findSimilarSlugs rows b ex) \<and> match_numbered b s = Some ds)
     \<longleftrightarrow> (\<exists>p. p \<in> set rows \<and> not_excluded ex p \<and> slug p = b @ ''-'' @ ds
            \<and> ds \<noteq> [] \<and> list_all is_digit ds)" for ds
    by (auto simp: PostRepo_findSimilarSlugs_def match_numbered_iff)
  then show ?thesis
    unfolding numbered_suffixes_def by blast
qed


lemma set_map_filter: "set (List.map_filter f xs) = {y. \<exists>x \<in> set xs. f x = Some y}"
  by (induction xs) (auto simp: List.map_filter_simps split: option.splits)

lemma numbered_suffixes_code:
  "numbered_suffixes rows b ex =
     set (List.map_filter
            (\<lambda>p. if not_excluded ex p then map_option nat_of_digits (match_numbered b (slug p))
                 else None) rows)"
proof -
  have "(\<exists>ds p. n = nat_of_digits ds \<and> p \<in> set rows \<and> not_excluded ex p
            \<and> slug p = b @ ''-'' @ ds \<and> ds \<noteq> [] \<and> list_all is_digit ds)
     \<longleftrightarrow> (\<exists>p \<in> set rows. (if not_excluded ex p
            then map_option nat_of_digits (match_numbered b (slug p)) else None) = Some n)" for n
    by (auto simp: match_numbered_iff)
  then have "{nat_of_digits ds | ds p. p \<in> set rows \<and> not_excluded ex p
            \<and> slug p = b @ ''-'' @ ds \<and> ds \<noteq> [] \<and> list_all is_digit ds}
     = {n. \<exists>p \<in> set rows. (if not_excluded ex p
            then map_option nat_of_digits (match_numbered b (slug p)) else None) = Some n}"
    by blast
  then show ?thesis
    by (simp only: numbered_suffixes_def set_map_filter)
qed

text \<open>
  Within the integers that a double holds exactly, and for a base slug without
  characters special in a regular expression, the result is as the specification
  says.  When a post other than the excluded one has the base slug and every numeric
  suffix of the existing slugs \<open>base-<N>\<close> (the excluded post's slug left out) is
  below \<open>2^53\<close>, \<open>generateSlug\<close> returns the base slug, a hyphen and the decimal
  digits of the largest such \<open>N\<close> plus one, with 0 for the largest when there is no
  numbered variant.
\<close>

lemma generateSlug_next_suffix:
  assumes "regex_plain (slugify ttl)"
      and "\<exists>p \<in> set (db c). slug p = slugify ttl \<and> not_excluded ex p"
      and "\<forall>n \<in> numbered_suffixes (db c) (slugify ttl) ex. n < 2 ^ 53"
  shows "generateSlug engine slugify c \<lparr>gs_title = ttl, gs_excludeId = ex\<rparr>
         = Inr (slugify ttl @ ''-'' @
             string_of_nat (Max (insert 0 (numbered_suffixes (db c) (slugify ttl) ex)) + 1))"
proof -
  let ?b = "slugify ttl"
  let ?S = "numbered_suffixes (db c) ?b ex"
  from assms(2) have exact: "PostRepo_slugExists (db c) ?b ex"
    by (auto simp: PostRepo_slugExists_def list_ex_iff)
  from assms(1) have re: "RegExp_numbered engine ?b
      = Inr (\<lambda>s. map_option parseInt (match_numbered ?b s))"
    by (simp add: RegExp_numbered_def)
  have safe: "\<forall>s \<in> set (PostRepo_findSimilarSlugs (db c) ?b ex).
      \<forall>ds. match_numbered ?b s = Some ds \<longrightarrow> nat_of_digits ds < 2 ^ 53"
  proof (intro ballI allI impI)
    fix s ds
    assume "s \<in> set (PostRepo_findSimilarSlugs (db c) ?b ex)" "match_numbered ?b s = Some ds"
    then have "nat_of_digits ds \<in> {nat_of_digits ds | ds s.
        s \<in> set (PostRepo_findSimilarSlugs (db c) ?b ex) \<and> match_numbered ?b s = Some ds}"
      by blast
    then have "nat_of_digits ds \<in> ?S"
      by (simp only: similar_suffixes)
    with assms(3) show "nat_of_digits ds < 2 ^ 53"
      by blast
  qed
  have fin: "finite ?S"
    by (simp add: numbered_suffixes_code)
  have bound: "Max (insert 0 ?S) < 2 ^ 53"
    using fin assms(3) by (subst Max_less_iff) auto
  have fold: "foldl (\<lambda>maxSuffix s.
                  case map_option parseInt (match_numbered ?b s) of
                    None \<Rightarrow> maxSuffix
                  | Some number \<Rightarrow>
                      if number_gt number maxSuffix then number else maxSuffix)
           (Finite 0) (PostRepo_findSimilarSlugs (db c) ?b ex)
         = Finite (Max (insert 0 ?S))"
    using fold_maxSuffix [of 0 "PostRepo_findSimilarSlugs (db c) ?b ex" ?b, OF _ safe]
    by (simp only: similar_suffixes) simp
  from bound have le: "Max (insert 0 ?S) + 1 \<le> 2 ^ 53"
    by simp
  have "Number_toString (plus_one (Finite (Max (insert 0 ?S))))
      = string_of_nat (Max (insert 0 ?S) + 1)"
    by (simp only: plus_one_safe [OF bound] Number_toString_safe [OF le])
  with exact re fold show ?thesis
    by (simp add: generateSlug_def Let_def)
qed

text \<open>
  When no post other than the excluded one has the base slug, the base slug itself is
  returned: a post that is edited keeps a slug only it holds.
\<close>

lemma generateSlug_free:
  assumes "\<not> (\<exists>p \<in> set (db c). slug p = slugify ttl \<and> not_excluded ex p)"
  shows "generateSlug engine slugify c \<lparr>gs_title = ttl, gs_excludeId = ex\<rparr> = Inr (slugify ttl)"
  using assms
  by (auto simp: generateSlug_def PostRepo_slugExists_def list_ex_iff)

lemmas slug_eval =
  slug_ctx_def slug_rows_def example_post_def not_excluded_def match_numbered_def
  is_digit_def digit_chars_def digit_val_def nat_of_digits_def List.map_filter_def Let_def

text \<open>
  The examples of the specification: with \<open>title\<close> and \<open>title-5\<close> taken the next slug
  is \<open>title-6\<close>; the first collision gives \<open>title-1\<close>; with post 2, which holds
  \<open>title-5\<close>, excluded, only \<open>title-2\<close> counts and the next slug is \<open>title-3\<close>; and
  with post 1, the only holder of \<open>title\<close>, excluded, the slug is \<open>title\<close>.
\<close>

lemma generateSlug_examples:
  "generateSlug engine (\<lambda>s. s) (slug_ctx [''title'', ''title-5''])
       \<lparr>gs_title = ''title'', gs_excludeId = None\<rparr> = Inr ''title-6''
   \<and> generateSlug engine (\<lambda>s. s) (slug_ctx [''title''])
       \<lparr>gs_title = ''title'', gs_excludeId = None\<rparr> = Inr ''title-1''
   \<and> generateSlug engine (\<lambda>s. s) (slug_ctx [''title'', ''title-5'', ''title-2''])
       \<lparr>gs_title = ''title'', gs_excludeId = Some 2\<rparr> = Inr ''title-3''
   \<and> generateSlug engine (\<lambda>s. s) (slug_ctx [''title'', ''title-5''])
       \<lparr>gs_title = ''title'', gs_excludeId = Some 1\<rparr> = Inr ''title''"
proof -
  have plain: "regex_plain ''title''"
    by (simp add: regex_plain_def)
  have s1: "numbered_suffixes (db (slug_ctx [''title'', ''title-5''])) ''title'' None = {5}"
    by (simp add: numbered_suffixes_code slug_eval)
  have s2: "numbered_suffixes (db (slug_ctx [''title''])) ''title'' None = {}"
    by (simp add: numbered_suffixes_code slug_eval)
  have s3: "numbered_suffixes (db (slug_ctx [''title'', ''title-5'', ''title-2''])) ''title'' (Some 2) = {2}"
    by (simp add: numbered_suffixes_code slug_eval)
  have t1: "\<exists>p \<in> set (db (slug_ctx [''title'', ''title-5''])). slug p = ''title'' \<and> not_excluded None p"
    by (simp add: slug_eval)
  have t2: "\<exists>p \<in> set (db (slug_ctx [''title''])). slug p = ''title'' \<and> not_excluded None p"
    by (simp add: slug_eval)
  have t3: "\<exists>p \<in> set (db (slug_ctx [''title'', ''title-5'', ''title-2''])).
      slug p = ''title'' \<and> not_excluded (Some 2) p"
    by (simp add: slug_eval)
  have t4: "\<not> (\<exists>p \<in> set (db (slug_ctx [''title'', ''title-5''])).
      slug p = ''title'' \<and> not_excluded (Some 1) p)"
    by (simp add: slug_eval)
  have d: "string_of_nat 6 = ''6''" "string_of_nat 1 = ''1''" "string_of_nat 3 = ''3''"
    by (simp_all add: string_of_nat.simps digit_chars_def)
  from generateSlug_next_suffix [of "\<lambda>s. s" "''title''" "slug_ctx [''title'', ''title-5'']" None engine]
  have g1: "generateSlug engine (\<lambda>s. s) (slug_ctx [''title'', ''title-5''])
      \<lparr>gs_title = ''title'', gs_excludeId = None\<rparr> = Inr ''title-6''"
    using plain t1 by (simp add: s1 d)
  from generateSlug_next_suffix [of "\<lambda>s. s" "''title''" "slug_ctx [''title'']" None engine]
  have g2: "generateSlug engine (\<lambda>s. s) (slug_ctx [''title''])
      \<lparr>gs_title = ''title'', gs_excludeId = None\<rparr> = Inr ''title-1''"
    using plain t2 by (simp add: s2 d d [unfolded One_nat_def])
  from generateSlug_next_suffix [of "\<lambda>s. s" "''title''" "slug_ctx [''title'', ''title-5'', ''title-2'']" "Some 2" engine]
  have g3: "generateSlug engine (\<lambda>s. s) (slug_ctx [''title'', ''title-5'', ''title-2''])
      \<lparr>gs_title = ''title'', gs_excludeId = Some 2\<rparr> = Inr ''title-3''"
    using plain t3 by (simp add: s3 d)
  from generateSlug_free [of "slug_ctx [''title'', ''title-5'']" "\<lambda>s. s" "''title''" "Some 1" engine, OF t4]
  have g4: "generateSlug engine (\<lambda>s. s) (slug_ctx [''title'', ''title-5''])
      \<lparr>gs_title = ''title'', gs_excludeId = Some 1\<rparr> = Inr ''title''"
    by simp
  from g1 g2 g3 g4 show ?thesis by blast
qed

text \<open>
  Claim C1.  The specification asks that, when the base slug is taken, the result be
  the base slug with the largest numeric suffix \<open>N\<close> of the existing slugs plus one,
  \<open>base-(N+1)\<close>.  The code keeps the suffix in a double.  With \<open>title\<close> and
  \<open>title-9007199254740992\<close> taken and a title whose base slug is \<open>title\<close>, the
  largest suffix is \<open>2^53\<close>; the sum \<open>2^53 + 1\<close> rounds back to \<open>2^53\<close>, and
  \<open>generateSlug\<close> returns \<open>title-9007199254740992\<close>, a slug that is taken, where
  the specification gives \<open>title-9007199254740993\<close>.  This is so for every
  regular-expression engine.
\<close>

theorem generateSlug_at_2_53:
  assumes "slugify ttl = ''title''"
  shows "generateSlug engine slugify (slug_ctx [''title'', ''title-9007199254740992''])
           \<lparr>gs_title = ttl, gs_excludeId = None\<rparr>
         = Inr ''title-9007199254740992''
       \<and> PostRepo_slugExists (db (slug_ctx [''title'', ''title-9007199254740992'']))
           ''title-9007199254740992'' None
       \<and> numbered_suffixes (db (slug_ctx [''title'', ''title-9007199254740992''])) ''title'' None
           = {9007199254740992}
       \<and> ''title'' @ ''-'' @ string_of_nat
             (Max (insert 0 (numbered_suffixes
                (db (slug_ctx [''title'', ''title-9007199254740992''])) ''title'' None)) + 1)
           = ''title-9007199254740993''"
proof -
  have plain: "regex_plain ''title''"
    by (simp add: regex_plain_def)
  have taken: "PostRepo_slugExists (db (slug_ctx [''title'', ''title-9007199254740992'']))
      ''title-9007199254740992'' None"
    by (simp add: PostRepo_slugExists_def slug_eval)
  have s: "numbered_suffixes (db (slug_ctx [''title'', ''title-9007199254740992''])) ''title'' None
       = {9007199254740992}"
    by (simp add: numbered_suffixes_code slug_eval)
  have g: "generateSlug engine slugify (slug_ctx [''title'', ''title-9007199254740992''])
         \<lparr>gs_title = ttl, gs_excludeId = None\<rparr>
       = Inr ''title-9007199254740992''"
    by (simp add: generateSlug_def assms RegExp_numbered_def plain PostRepo_slugExists_def
        PostRepo_findSimilarSlugs_def slug_eval parseInt_def round_double_def bit_length.simps
        Number_toString_def string_of_nat.simps)
  have n: "''title'' @ ''-'' @ string_of_nat (Max (insert 0 {9007199254740992}) + 1)
      = ''title-9007199254740993''"
    by (simp add: string_of_nat.simps digit_chars_def)
  from taken s g n show ?thesis
    by (simp only: simp_thms)
qed

text \<open>
  The identity takes the title \<open>title\<close> to the base slug \<open>title\<close>; the engine that
  compiles no pattern is never asked.
\<close>

theorem generateSlug_at_2_53_witness:
  "generateSlug (\<lambda>pat. None) (\<lambda>s. s) (slug_ctx [''title'', ''title-9007199254740992''])
     \<lparr>gs_title = ''title'', gs_excludeId = None\<rparr>
   = Inr ''title-9007199254740992''
   \<and> slug ` set (db (slug_ctx [''title'', ''title-9007199254740992'']))
       = {''title'', ''title-9007199254740992''}"
proof -
  have r: "slug ` set (db (slug_ctx [''title'', ''title-9007199254740992'']))
       = {''title'', ''title-9007199254740992''}"
    by (simp add: slug_ctx_def slug_rows_def example_post_def)
  from generateSlug_at_2_53 [of "\<lambda>s. s" "''title''" "\<lambda>pat. None"] r
  show ?thesis by simp
qed

end
